theory Spec2Isabelle
  imports Main "HOL-Library.AList" "HOL-Library.Char_ord" "HOL-Library.List_Lexorder"
    "HOL-Library.Multiset" "HOL-Library.Product_Lexorder"
begin

section \<open>Documents, exceptions and the query language\<close>

text \<open>
  A stored document is a JSON object: a Python dict from field names to values, kept as an
  association list in insertion order. A key that is present with the value \<open>JNull\<close> is
  distinct from a key that is absent. A datetime is modelled by its instant (an integer);
  \<open>isoformat()\<close> and the store's date parsing are inverse to each other, so the serialized
  form of an instant \<open>t\<close> is \<open>JDate t\<close>.
\<close>

datatype json = JNull | JStr string | JInt int | JDate int | JList "json list"

type_synonym document = "(string \<times> json) list"

definition field :: "document \<Rightarrow> string \<Rightarrow> json option" where
  "field d k = map_of d k"

text \<open>The store does not index a null value: for queries and sorting it is a missing field.\<close>

definition indexed :: "document \<Rightarrow> string \<Rightarrow> json option" where
  "indexed d k = (case field d k of Some JNull \<Rightarrow> None | r \<Rightarrow> r)"

text \<open>
  Python exceptions. \<open>NotFoundError\<close>, \<open>RequestError\<close> (with its \<open>error\<close> attribute) and
  \<open>TransportError\<close> (standing for every other exception of the client) come from the store
  client; \<open>ValidationError\<close> is the schema library's; \<open>UserNotFoundError\<close> and \<open>ElasticsearchError\<close> are the application's own, with a
  message and a status code (\<open>None\<close> where the source passes no code).
\<close>

datatype exn =
    NotFoundError string
  | RequestError string
  | TransportError string
  | ValidationError string
  | UserNotFoundError string int
  | ElasticsearchError string "int option"

fun exn_str :: "exn \<Rightarrow> string" where
  "exn_str (NotFoundError m) = m"
| "exn_str (RequestError m) = m"
| "exn_str (TransportError m) = m"
| "exn_str (ValidationError m) = m"
| "exn_str (UserNotFoundError m c) = m"
| "exn_str (ElasticsearchError m c) = m"

datatype range_param = Gte json | Gt json | Lte json | Lt json | Format string

datatype query =
    Term string json
  | Terms string "json list"
  | Range string "range_param list"
  | Bool_must "query list"

datatype sort_order = Asc | Desc

record search_body =
  sb_query :: query
  sb_sort :: "(string \<times> sort_order) list"
  sb_size :: int

fun json_cmp :: "json \<Rightarrow> json \<Rightarrow> (int \<times> int) option" where
  "json_cmp (JInt a) (JInt b) = Some (a, b)"
| "json_cmp (JDate a) (JDate b) = Some (a, b)"
| "json_cmp _ _ = None"

fun range_ok :: "json \<Rightarrow> range_param \<Rightarrow> bool" where
  "range_ok v (Gte b) = (case json_cmp v b of Some (x, y) \<Rightarrow> y \<le> x | None \<Rightarrow> False)"
| "range_ok v (Gt b) = (case json_cmp v b of Some (x, y) \<Rightarrow> y < x | None \<Rightarrow> False)"
| "range_ok v (Lte b) = (case json_cmp v b of Some (x, y) \<Rightarrow> x \<le> y | None \<Rightarrow> False)"
| "range_ok v (Lt b) = (case json_cmp v b of Some (x, y) \<Rightarrow> x < y | None \<Rightarrow> False)"
| "range_ok v (Format f) = True"

fun matches :: "query \<Rightarrow> document \<Rightarrow> bool" where
  "matches (Term k v) d = (indexed d k = Some v)"
| "matches (Terms k vs) d = (case indexed d k of None \<Rightarrow> False | Some v \<Rightarrow> v \<in> set vs)"
| "matches (Range k ps) d = (case indexed d k of None \<Rightarrow> False | Some v \<Rightarrow> list_all (range_ok v) ps)"
| "matches (Bool_must qs) d = list_all (\<lambda>q. matches q d) qs"

section \<open>The document store\<close>

text \<open>
  The store is an external collaborator; the model keeps what the code relies on. An index
  has a mapping and a list of (id, document) entries in insertion order. Every call of the
  client first meets the environment: the \<open>script\<close> says, call by call, whether the rest of
  the world stays quiet, makes the call fail with an exception, or has another client create
  an index just before the call is served. An empty script is a quiet world.
\<close>

type_synonym entry = "string \<times> document"

record es_index =
  idx_mapping :: "(string \<times> string) list"
  idx_docs :: "entry list"

datatype env = Quiet | Fails exn | Creates string

record es_store =
  indices :: "(string \<times> es_index) list"
  next_auto :: nat
  script :: "env list"

record hit =
  h_index :: string
  h_id :: string
  h_source :: document

record search_result =
  hits :: "hit list"
  total :: nat

definition index_exists :: "es_store \<Rightarrow> string \<Rightarrow> bool" where
  "index_exists st name = (map_of (indices st) name \<noteq> None)"

definition put_index :: "string \<Rightarrow> es_index \<Rightarrow> es_store \<Rightarrow> es_store" where
  "put_index name ix st = st\<lparr>indices := AList.update name ix (indices st)\<rparr>"

definition docs_of :: "es_store \<Rightarrow> string \<Rightarrow> document list" where
  "docs_of st name = (case map_of (indices st) name of None \<Rightarrow> [] | Some ix \<Rightarrow> map snd (idx_docs ix))"

definition serve :: "es_store \<Rightarrow> exn option \<times> es_store" where
  "serve st = (case script st of
       [] \<Rightarrow> (None, st)
     | Quiet # r \<Rightarrow> (None, st\<lparr>script := r\<rparr>)
     | Fails e # r \<Rightarrow> (Some e, st\<lparr>script := r\<rparr>)
     | Creates n # r \<Rightarrow>
         (None, if index_exists st n then st\<lparr>script := r\<rparr>
                else put_index n \<lparr>idx_mapping = [], idx_docs = []\<rparr> (st\<lparr>script := r\<rparr>)))"

definition es_indices_exists :: "string \<Rightarrow> es_store \<Rightarrow> (exn + bool) \<times> es_store" where
  "es_indices_exists name st = (case serve st of
       (Some e, st1) \<Rightarrow> (Inl e, st1)
     | (None, st1) \<Rightarrow> (Inr (index_exists st1 name), st1))"

definition es_indices_create :: "string \<Rightarrow> (string \<times> string) list \<Rightarrow> es_store \<Rightarrow> (exn + unit) \<times> es_store" where
  "es_indices_create name mapping st = (case serve st of
       (Some e, st1) \<Rightarrow> (Inl e, st1)
     | (None, st1) \<Rightarrow>
         if index_exists st1 name then (Inl (RequestError ''resource_already_exists_exception''), st1)
         else (Inr (), put_index name \<lparr>idx_mapping = mapping, idx_docs = []\<rparr> st1))"

text \<open>
  Sorting: documents that have the sort field come first, ordered by it (a stable sort, so
  equal keys keep insertion order); documents without it come last. Several sort keys are
  applied from the last to the first.
\<close>

definition sort_val :: "string \<Rightarrow> entry \<Rightarrow> int option" where
  "sort_val k e = (case indexed (snd e) k of Some (JInt i) \<Rightarrow> Some i | Some (JDate t) \<Rightarrow> Some t | _ \<Rightarrow> None)"

definition sort1 :: "string \<times> sort_order \<Rightarrow> entry list \<Rightarrow> entry list" where
  "sort1 ko es = (let k = fst ko;
        present = filter (\<lambda>e. sort_val k e \<noteq> None) es;
        missing = filter (\<lambda>e. sort_val k e = None) es
      in (case snd ko of
            Asc \<Rightarrow> sort_key (\<lambda>e. the (sort_val k e)) present
          | Desc \<Rightarrow> sort_key (\<lambda>e. - the (sort_val k e)) present) @ missing)"

definition sort_entries :: "(string \<times> sort_order) list \<Rightarrow> entry list \<Rightarrow> entry list" where
  "sort_entries spec es = foldr sort1 spec es"

definition matching :: "query \<Rightarrow> es_index \<Rightarrow> entry list" where
  "matching qu ix = filter (\<lambda>e. matches qu (snd e)) (idx_docs ix)"

text \<open>
  A search reports the number of its matches in \<open>hits.total.value\<close>. The store counts
  them exactly only up to a threshold, 10000 unless the request sets \<open>track_total_hits\<close>,
  and reports the threshold itself when there are more. None of the searches of the code
  sets that option. A count request (\<open>es_count\<close> below) has no threshold.
\<close>

definition TRACK_TOTAL_HITS :: nat where
  "TRACK_TOTAL_HITS = 10000"

definition es_search :: "string \<Rightarrow> search_body \<Rightarrow> es_store \<Rightarrow> (exn + search_result) \<times> es_store" where
  "es_search name body st = (case serve st of
       (Some e, st1) \<Rightarrow> (Inl e, st1)
     | (None, st1) \<Rightarrow>
         (case map_of (indices st1) name of
            None \<Rightarrow> (Inl (NotFoundError ''index_not_found_exception''), st1)
          | Some ix \<Rightarrow>
              if sb_size body < 0 then (Inl (RequestError ''illegal_argument_exception''), st1)
              else let ms = matching (sb_query body) ix
                   in (Inr \<lparr>hits = map (\<lambda>e. \<lparr>h_index = name, h_id = fst e, h_source = snd e\<rparr>)
                                     (take (nat (sb_size body)) (sort_entries (sb_sort body) ms)),
                            total = min (length ms) TRACK_TOTAL_HITS\<rparr>, st1)))"

definition es_count :: "string \<Rightarrow> query \<Rightarrow> es_store \<Rightarrow> (exn + nat) \<times> es_store" where
  "es_count name qu st = (case serve st of
       (Some e, st1) \<Rightarrow> (Inl e, st1)
     | (None, st1) \<Rightarrow>
         (case map_of (indices st1) name of
            None \<Rightarrow> (Inl (NotFoundError ''index_not_found_exception''), st1)
          | Some ix \<Rightarrow> (Inr (length (matching qu ix)), st1)))"

section \<open>Partition manager\<close>

text \<open>
  The wall clock: \<open>datetime.now()\<close> gives year and month for the index name,
  \<open>datetime.utcnow()\<close> the capture instant of an agent record.
\<close>

record clock =
  now_year :: nat
  now_month :: nat
  utcnow :: int

fun dec :: "nat \<Rightarrow> string" where
  "dec n = (if n < 10 then [''0123456789'' ! n] else dec (n div 10) @ [''0123456789'' ! (n mod 10)])"

definition pad :: "nat \<Rightarrow> string \<Rightarrow> string" where
  "pad w s = replicate (w - length s) CHR ''0'' @ s"

definition strftime_Y_m :: "clock \<Rightarrow> string" where
  "strftime_Y_m clk = pad 4 (dec (now_year clk)) @ ''_'' @ pad 2 (dec (now_month clk))"

definition index_mapping :: "(string \<times> string) list" where
  "index_mapping =
     [(''agent_name'', ''keyword''), (''agent_id'', ''keyword''), (''ip'', ''ip''),
      (''agent_status'', ''keyword''), (''status_code'', ''integer''),
      (''last_keep_alive'', ''date''), (''os'', ''keyword''), (''os_version'', ''keyword''),
      (''group_name'', ''keyword''), (''wazuh_data_type'', ''keyword''), (''timestamp'', ''date''),
      (''rule_description'', ''text''), (''rule_level'', ''integer''), (''rule_id'', ''keyword''),
      (''rule_mitre_id'', ''keyword''), (''rule_mitre_tactic'', ''keyword''),
      (''rule_mitre_technique'', ''keyword''), (''agent_ip'', ''ip'')]"

definition index_name_of :: "clock \<Rightarrow> string" where
  "index_name_of clk = strftime_Y_m clk @ ''_agents_data''"

definition create_index_with_mapping :: "clock \<Rightarrow> es_store \<Rightarrow> (exn + string) \<times> es_store" where
  "create_index_with_mapping clk st =
     (let index_name = index_name_of clk
      in case es_indices_exists index_name st of
           (Inl e, st1) \<Rightarrow> (Inl e, st1)
         | (Inr True, st1) \<Rightarrow> (Inr index_name, st1)
         | (Inr False, st1) \<Rightarrow>
             (case es_indices_create index_name index_mapping st1 of
                (Inr u, st2) \<Rightarrow> (Inr index_name, st2)
              | (Inl (RequestError err), st2) \<Rightarrow>
                  if err = ''resource_already_exists_exception'' then (Inr index_name, st2)
                  else (Inl (RequestError err), st2)
              | (Inl e, st2) \<Rightarrow> (Inl e, st2)))"

definition get_index_name :: "clock \<Rightarrow> es_store \<Rightarrow> (exn + string) \<times> es_store" where
  "get_index_name clk st = create_index_with_mapping clk st"

section \<open>Aggregation reads\<close>

definition high_level_query :: "int \<Rightarrow> int \<Rightarrow> query" where
  "high_level_query start_time end_time =
     Bool_must [Range ''timestamp'' [Gte (JDate start_time), Lt (JDate end_time)],
                Range ''rule_level'' [Gte (JInt 8), Lte (JInt 14)]]"

definition get_high_level_event_count :: "clock \<Rightarrow> int \<Rightarrow> int \<Rightarrow> es_store \<Rightarrow> (exn + nat) \<times> es_store" where
  "get_high_level_event_count clk start_time end_time st =
     (case get_index_name clk st of
        (Inl e, st1) \<Rightarrow>
          (Inl (ElasticsearchError (''Error getting high-level event count: '' @ exn_str e) None), st1)
      | (Inr name, st1) \<Rightarrow>
          (case es_count name (high_level_query start_time end_time) st1 of
             (Inl e, st2) \<Rightarrow>
               (Inl (ElasticsearchError (''Error getting high-level event count: '' @ exn_str e) None), st2)
           | (Inr n, st2) \<Rightarrow> (Inr n, st2)))"


text \<open>
  Indexing a document: with an id, an entry with that id is overwritten; without one the
  store makes up a fresh id. A missing index is created on the fly with an empty mapping.
  The call returns the id of the entry.
\<close>

definition es_index :: "string \<Rightarrow> string option \<Rightarrow> document \<Rightarrow> es_store \<Rightarrow> (exn + string) \<times> es_store" where
  "es_index name doc_id body st = (case serve st of
       (Some e, st1) \<Rightarrow> (Inl e, st1)
     | (None, st1) \<Rightarrow>
         (let ix = (case map_of (indices st1) name of
                      None \<Rightarrow> \<lparr>idx_mapping = [], idx_docs = []\<rparr> | Some i \<Rightarrow> i)
          in case doc_id of
               Some i \<Rightarrow>
                 (Inr i, put_index name (ix\<lparr>idx_docs := AList.update i body (idx_docs ix)\<rparr>) st1)
             | None \<Rightarrow>
                 (let i = ''auto_'' @ dec (next_auto st1)
                  in (Inr i, put_index name (ix\<lparr>idx_docs := idx_docs ix @ [(i, body)]\<rparr>)
                               (st1\<lparr>next_auto := Suc (next_auto st1)\<rparr>)))))"

section \<open>Fault translator\<close>

definition handle_es_exceptions ::
  "(es_store \<Rightarrow> (exn + 'a) \<times> es_store) \<Rightarrow> es_store \<Rightarrow> (exn + 'a) \<times> es_store" where
  "handle_es_exceptions func st = (case func st of
       (Inr r, st1) \<Rightarrow> (Inr r, st1)
     | (Inl (NotFoundError m), st1) \<Rightarrow> (Inl (UserNotFoundError (exn_str (NotFoundError m)) 404), st1)
     | (Inl e, st1) \<Rightarrow> (Inl (ElasticsearchError (''Elasticsearch error: '' @ exn_str e) (Some 500)), st1))"

section \<open>Schemas and document normalizer\<close>

text \<open>
  \<open>str.lower()\<close> on the ASCII letters; every other character is left as it is.
\<close>

definition lower_char :: "char \<Rightarrow> char" where
  "lower_char c =
     (case map_of (zip ''ABCDEFGHIJKLMNOPQRSTUVWXYZ'' ''abcdefghijklmnopqrstuvwxyz'') c of
        None \<Rightarrow> c | Some l \<Rightarrow> l)"

definition lower :: "string \<Rightarrow> string" where
  "lower s = map lower_char s"

record agent =
  a_agent_name :: string
  a_agent_id :: string
  a_ip :: string
  a_agent_status :: string
  a_status_code :: int
  a_last_keep_alive :: int
  a_os :: string
  a_os_version :: string
  a_group_name :: string

record agent_model =
  am_agent_name :: string
  am_agent_id :: string
  am_ip :: string
  am_agent_status :: string
  am_status_code :: int
  am_last_keep_alive :: int
  am_group_name :: string
  am_os :: string
  am_os_version :: string
  am_wazuh_data_type :: string
  am_timestamp :: int

definition AgentModel_init :: "clock \<Rightarrow> agent \<Rightarrow> agent_model" where
  "AgentModel_init clk a =
     \<lparr>am_agent_name = a_agent_name a, am_agent_id = a_agent_id a, am_ip = a_ip a,
      am_agent_status = a_agent_status a, am_status_code = a_status_code a,
      am_last_keep_alive = a_last_keep_alive a, am_group_name = a_group_name a,
      am_os = a_os a, am_os_version = a_os_version a,
      am_wazuh_data_type = ''agent_info'', am_timestamp = utcnow clk\<rparr>"

text \<open>
  \<open>last_keep_alive\<close> is a required datetime of the schema and a datetime is always truthy,
  so the \<open>else None\<close> of the source is never taken.
\<close>

definition AgentModel_to_dict :: "agent_model \<Rightarrow> document" where
  "AgentModel_to_dict m =
     [(''agent_name'', JStr (am_agent_name m)),
      (''agent_id'', JStr (am_agent_id m)),
      (''ip'', JStr (am_ip m)),
      (''agent_status'', JStr (lower (am_agent_status m))),
      (''status_code'', JInt (am_status_code m)),
      (''last_keep_alive'', JDate (am_last_keep_alive m)),
      (''os'', JStr (am_os m)),
      (''os_version'', JStr (am_os_version m)),
      (''group_name'', JStr (am_group_name m)),
      (''wazuh_data_type'', JStr (am_wazuh_data_type m)),
      (''timestamp'', JDate (am_timestamp m))]"

definition AgentModel_save_to_elasticsearch :: "clock \<Rightarrow> agent_model \<Rightarrow> es_store \<Rightarrow> (exn + string) \<times> es_store" where
  "AgentModel_save_to_elasticsearch clk m st =
     (case get_index_name clk st of
        (Inl e, st1) \<Rightarrow> (Inl e, st1)
      | (Inr index_name, st1) \<Rightarrow>
          es_index index_name (Some (''agent_'' @ am_agent_id m)) (AgentModel_to_dict m) st1)"

record wazuh_event =
  e_timestamp :: int
  e_agent_id :: string
  e_agent_ip :: string
  e_rule_description :: string
  e_rule_level :: int
  e_rule_id :: string
  e_rule_mitre_id :: "string option"
  e_rule_mitre_tactic :: "string option"
  e_rule_mitre_technique :: "string option"
  e_group_name :: string

text \<open>
  Validation of an incoming JSON object against the \<open>WazuhEvent\<close> schema. A required
  field must be present with a value of its type; an \<open>Optional[str]\<close> field with default
  \<open>None\<close> may be absent or null, and otherwise must be a string. The lenient coercions of
  the schema library (a numeric string for an integer, and the like) are left out.
\<close>

definition required_str :: "document \<Rightarrow> string \<Rightarrow> exn + string" where
  "required_str d k = (case field d k of
       Some (JStr s) \<Rightarrow> Inr s
     | None \<Rightarrow> Inl (ValidationError (k @ '': Field required''))
     | _ \<Rightarrow> Inl (ValidationError (k @ '': Input should be a valid string'')))"

definition required_int :: "document \<Rightarrow> string \<Rightarrow> exn + int" where
  "required_int d k = (case field d k of
       Some (JInt i) \<Rightarrow> Inr i
     | None \<Rightarrow> Inl (ValidationError (k @ '': Field required''))
     | _ \<Rightarrow> Inl (ValidationError (k @ '': Input should be a valid integer'')))"

definition required_datetime :: "document \<Rightarrow> string \<Rightarrow> exn + int" where
  "required_datetime d k = (case field d k of
       Some (JDate t) \<Rightarrow> Inr t
     | None \<Rightarrow> Inl (ValidationError (k @ '': Field required''))
     | _ \<Rightarrow> Inl (ValidationError (k @ '': Input should be a valid datetime'')))"

definition optional_str :: "document \<Rightarrow> string \<Rightarrow> exn + string option" where
  "optional_str d k = (case field d k of
       None \<Rightarrow> Inr None
     | Some JNull \<Rightarrow> Inr None
     | Some (JStr s) \<Rightarrow> Inr (Some s)
     | _ \<Rightarrow> Inl (ValidationError (k @ '': Input should be a valid string'')))"

definition bind_exn :: "exn + 'a \<Rightarrow> ('a \<Rightarrow> exn + 'b) \<Rightarrow> exn + 'b" where
  "bind_exn r f = (case r of Inl e \<Rightarrow> Inl e | Inr x \<Rightarrow> f x)"

definition WazuhEvent_validate :: "document \<Rightarrow> exn + wazuh_event" where
  "WazuhEvent_validate d =
     bind_exn (required_datetime d ''timestamp'') (\<lambda>ts.
     bind_exn (required_str d ''agent_id'') (\<lambda>aid.
     bind_exn (required_str d ''agent_ip'') (\<lambda>aip.
     bind_exn (required_str d ''rule_description'') (\<lambda>rd.
     bind_exn (required_int d ''rule_level'') (\<lambda>rl.
     bind_exn (required_str d ''rule_id'') (\<lambda>rid.
     bind_exn (optional_str d ''rule_mitre_id'') (\<lambda>mid.
     bind_exn (optional_str d ''rule_mitre_tactic'') (\<lambda>mta.
     bind_exn (optional_str d ''rule_mitre_technique'') (\<lambda>mte.
     bind_exn (required_str d ''group_name'') (\<lambda>gn.
       Inr \<lparr>e_timestamp = ts, e_agent_id = aid, e_agent_ip = aip, e_rule_description = rd,
            e_rule_level = rl, e_rule_id = rid, e_rule_mitre_id = mid,
            e_rule_mitre_tactic = mta, e_rule_mitre_technique = mte,
            e_group_name = gn\<rparr>))))))))))"

record event_model =
  em_timestamp :: int
  em_agent_id :: string
  em_agent_ip :: string
  em_rule_description :: string
  em_rule_level :: int
  em_rule_id :: string
  em_rule_mitre_id :: "string option"
  em_rule_mitre_tactic :: "string option"
  em_rule_mitre_technique :: "string option"
  em_wazuh_data_type :: string
  em_group_name :: string

definition EventModel_init :: "wazuh_event \<Rightarrow> event_model" where
  "EventModel_init ev =
     \<lparr>em_timestamp = e_timestamp ev, em_agent_id = e_agent_id ev, em_agent_ip = e_agent_ip ev,
      em_rule_description = e_rule_description ev, em_rule_level = e_rule_level ev,
      em_rule_id = e_rule_id ev, em_rule_mitre_id = e_rule_mitre_id ev,
      em_rule_mitre_tactic = e_rule_mitre_tactic ev,
      em_rule_mitre_technique = e_rule_mitre_technique ev,
      em_wazuh_data_type = ''wazuh_events'', em_group_name = e_group_name ev\<rparr>"

text \<open>A Python \<open>None\<close> put into the dict is a key with the value null.\<close>

definition opt_json :: "string option \<Rightarrow> json" where
  "opt_json v = (case v of None \<Rightarrow> JNull | Some s \<Rightarrow> JStr s)"

definition EventModel_to_dict :: "event_model \<Rightarrow> document" where
  "EventModel_to_dict m =
     [(''timestamp'', JDate (em_timestamp m)),
      (''agent_id'', JStr (em_agent_id m)),
      (''agent_ip'', JStr (em_agent_ip m)),
      (''rule_description'', JStr (em_rule_description m)),
      (''rule_level'', JInt (em_rule_level m)),
      (''rule_id'', JStr (em_rule_id m)),
      (''rule_mitre_id'', opt_json (em_rule_mitre_id m)),
      (''rule_mitre_tactic'', opt_json (em_rule_mitre_tactic m)),
      (''rule_mitre_technique'', opt_json (em_rule_mitre_technique m)),
      (''group_name'', JStr (em_group_name m)),
      (''wazuh_data_type'', JStr (em_wazuh_data_type m))]"

definition EventModel_save_to_elasticsearch :: "clock \<Rightarrow> event_model \<Rightarrow> es_store \<Rightarrow> (exn + string) \<times> es_store" where
  "EventModel_save_to_elasticsearch clk m st =
     (case get_index_name clk st of
        (Inl e, st1) \<Rightarrow> (Inl e, st1)
      | (Inr index_name, st1) \<Rightarrow> es_index index_name None (EventModel_to_dict m) st1)"


section \<open>Query builder and read operations\<close>

definition MAX_RESULTS :: int where
  "MAX_RESULTS = 10000"

definition sources :: "search_result \<Rightarrow> document list" where
  "sources r = map h_source (hits r)"

definition load_agents_query :: "int \<Rightarrow> int \<Rightarrow> string list option \<Rightarrow> search_body" where
  "load_agents_query start_time end_time group_names =
     \<lparr>sb_query = Bool_must
        ([Term ''wazuh_data_type'' (JStr ''agent_info''),
          Range ''timestamp'' [Gte (JDate start_time), Lte (JDate end_time),
                               Format ''strict_date_optional_time'']]
         @ (case group_names of
              None \<Rightarrow> []
            | Some gs \<Rightarrow> if gs = [] then [] else [Terms ''group_name'' (map JStr gs)])),
      sb_sort = [(''timestamp'', Desc)],
      sb_size = MAX_RESULTS\<rparr>"

definition load_agents_body ::
  "clock \<Rightarrow> int \<Rightarrow> int \<Rightarrow> string list option \<Rightarrow> es_store \<Rightarrow> (exn + document list) \<times> es_store" where
  "load_agents_body clk start_time end_time group_names st =
     (case get_index_name clk st of
        (Inl e, st1) \<Rightarrow>
          (Inl (ElasticsearchError (''Error loading agents: '' @ exn_str e) (Some 500)), st1)
      | (Inr index_name, st1) \<Rightarrow>
          (case es_search index_name (load_agents_query start_time end_time group_names) st1 of
             (Inl e, st2) \<Rightarrow>
               (Inl (ElasticsearchError (''Error loading agents: '' @ exn_str e) (Some 500)), st2)
           | (Inr response, st2) \<Rightarrow> (Inr (sources response), st2)))"

definition load_agents ::
  "clock \<Rightarrow> int \<Rightarrow> int \<Rightarrow> string list option \<Rightarrow> es_store \<Rightarrow> (exn + document list) \<times> es_store" where
  "load_agents clk start_time end_time group_names =
     handle_es_exceptions (load_agents_body clk start_time end_time group_names)"

text \<open>The three event loaders share one shape: build the query, resolve the index, search.\<close>

definition search_sources ::
  "clock \<Rightarrow> search_body \<Rightarrow> es_store \<Rightarrow> (exn + document list) \<times> es_store" where
  "search_sources clk body st =
     (case get_index_name clk st of
        (Inl e, st1) \<Rightarrow> (Inl e, st1)
      | (Inr index_name, st1) \<Rightarrow>
          (case es_search index_name body st1 of
             (Inl e, st2) \<Rightarrow> (Inl e, st2)
           | (Inr response, st2) \<Rightarrow> (Inr (sources response), st2)))"

definition group_events_query :: "string list \<Rightarrow> int \<Rightarrow> int \<Rightarrow> search_body" where
  "group_events_query group_names start_time end_time =
     \<lparr>sb_query = Bool_must
        [Range ''timestamp'' [Gte (JDate start_time), Lte (JDate end_time)],
         Terms ''group_name'' (map JStr group_names),
         Term ''wazuh_data_type'' (JStr ''wazuh_events'')],
      sb_sort = [],
      sb_size = MAX_RESULTS\<rparr>"

definition load_group_events_from_elasticsearch ::
  "clock \<Rightarrow> string list \<Rightarrow> int \<Rightarrow> int \<Rightarrow> es_store \<Rightarrow> (exn + document list) \<times> es_store" where
  "load_group_events_from_elasticsearch clk group_names start_time end_time =
     handle_es_exceptions (search_sources clk (group_events_query group_names start_time end_time))"

definition agent_events_query :: "string \<Rightarrow> int \<Rightarrow> int \<Rightarrow> search_body" where
  "agent_events_query agent_id start_time end_time =
     \<lparr>sb_query = Bool_must
        [Range ''timestamp'' [Gte (JDate start_time), Lte (JDate end_time)],
         Term ''agent_id'' (JStr agent_id),
         Term ''wazuh_data_type'' (JStr ''wazuh_events'')],
      sb_sort = [],
      sb_size = MAX_RESULTS\<rparr>"

definition load_from_elasticsearch_with_time_range ::
  "clock \<Rightarrow> string \<Rightarrow> int \<Rightarrow> int \<Rightarrow> es_store \<Rightarrow> (exn + document list) \<times> es_store" where
  "load_from_elasticsearch_with_time_range clk agent_id start_time end_time =
     handle_es_exceptions (search_sources clk (agent_events_query agent_id start_time end_time))"

definition all_events_query :: "int \<Rightarrow> int \<Rightarrow> search_body" where
  "all_events_query start_time end_time =
     \<lparr>sb_query = Bool_must
        [Range ''timestamp'' [Gte (JDate start_time), Lte (JDate end_time)],
         Term ''wazuh_data_type'' (JStr ''wazuh_events'')],
      sb_sort = [],
      sb_size = MAX_RESULTS\<rparr>"

definition load_all_events_from_elasticsearch ::
  "clock \<Rightarrow> int \<Rightarrow> int \<Rightarrow> es_store \<Rightarrow> (exn + document list) \<times> es_store" where
  "load_all_events_from_elasticsearch clk start_time end_time =
     handle_es_exceptions (search_sources clk (all_events_query start_time end_time))"

text \<open>
  The two raw scans build the same query and return the hits themselves (with index and
  id), not only their sources; they differ in the message of the error they raise.
\<close>

definition timerange_query :: "int \<Rightarrow> int \<Rightarrow> int \<Rightarrow> search_body" where
  "timerange_query start_time end_time sz =
     \<lparr>sb_query = Range ''timestamp'' [Gte (JDate start_time), Lt (JDate end_time)],
      sb_sort = [(''timestamp'', Asc)],
      sb_size = sz\<rparr>"

definition raw_scan ::
  "string \<Rightarrow> clock \<Rightarrow> int \<Rightarrow> int \<Rightarrow> int \<Rightarrow> es_store \<Rightarrow> (exn + hit list) \<times> es_store" where
  "raw_scan msg clk start_time end_time sz st =
     (case get_index_name clk st of
        (Inl e, st1) \<Rightarrow> (Inl (ElasticsearchError (msg @ exn_str e) None), st1)
      | (Inr index_name, st1) \<Rightarrow>
          (case es_search index_name (timerange_query start_time end_time sz) st1 of
             (Inl e, st2) \<Rightarrow> (Inl (ElasticsearchError (msg @ exn_str e) None), st2)
           | (Inr result, st2) \<Rightarrow> (Inr (hits result), st2)))"

definition get_events_in_timerange ::
  "clock \<Rightarrow> int \<Rightarrow> int \<Rightarrow> int \<Rightarrow> es_store \<Rightarrow> (exn + hit list) \<times> es_store" where
  "get_events_in_timerange = raw_scan ''Error getting events: ''"

definition get_events_for_pie_chart ::
  "clock \<Rightarrow> int \<Rightarrow> int \<Rightarrow> int \<Rightarrow> es_store \<Rightarrow> (exn + hit list) \<times> es_store" where
  "get_events_for_pie_chart = raw_scan ''Error getting events for pie chart: ''"

definition load_messages_query :: "int \<Rightarrow> int \<Rightarrow> string list option \<Rightarrow> int \<Rightarrow> search_body" where
  "load_messages_query start_time end_time group_names limit =
     \<lparr>sb_query = Bool_must
        ([Range ''timestamp'' [Gte (JDate start_time), Lt (JDate end_time)],
          Range ''rule_level'' [Gt (JInt 8)]]
         @ (case group_names of
              None \<Rightarrow> []
            | Some gs \<Rightarrow> if gs = [] then [] else [Terms ''group_name'' (map JStr gs)])),
      sb_sort = [(''timestamp'', Desc)],
      sb_size = limit\<rparr>"

definition load_messages ::
  "clock \<Rightarrow> int \<Rightarrow> int \<Rightarrow> string list option \<Rightarrow> int \<Rightarrow> es_store
     \<Rightarrow> (exn + document list \<times> nat) \<times> es_store" where
  "load_messages clk start_time end_time group_names limit st =
     (case get_index_name clk st of
        (Inl e, st1) \<Rightarrow>
          (Inl (ElasticsearchError (''Error loading high-level messages: '' @ exn_str e) None), st1)
      | (Inr index_name, st1) \<Rightarrow>
          (case es_search index_name (load_messages_query start_time end_time group_names limit) st1 of
             (Inl e, st2) \<Rightarrow>
               (Inl (ElasticsearchError (''Error loading high-level messages: '' @ exn_str e) None), st2)
           | (Inr result, st2) \<Rightarrow> (Inr (sources result, total result), st2)))"

section \<open>Top-N ranking\<close>

text \<open>
  Modelled from the spec: the top-N ranking of the aggregation engine, whose code is not
  among the sources (only the response schema \<open>PieChartData\<close> with its four lists is).
  Following the specification: the documents are grouped by a key, a document whose key is
  absent belongs to no group, each group is emitted as a (name, value) pair with its count,
  the pairs are ordered by descending count and, among equal counts, by ascending label,
  and the first \<open>n\<close> pairs are kept (five for the pie chart).
\<close>

definition str_key :: "string \<Rightarrow> document \<Rightarrow> string option" where
  "str_key k d = (case indexed d k of Some (JStr s) \<Rightarrow> Some s | _ \<Rightarrow> None)"

definition group_count :: "(document \<Rightarrow> string option) \<Rightarrow> document list \<Rightarrow> string \<Rightarrow> nat" where
  "group_count key docs l = length (filter (\<lambda>d. key d = Some l) docs)"

definition group_counts :: "(document \<Rightarrow> string option) \<Rightarrow> document list \<Rightarrow> (string \<times> nat) list" where
  "group_counts key docs =
     map (\<lambda>l. (l, group_count key docs l)) (remdups (List.map_filter key docs))"

definition rank_key :: "string \<times> nat \<Rightarrow> int \<times> string" where
  "rank_key p = (- int (snd p), fst p)"

definition top_n :: "nat \<Rightarrow> (document \<Rightarrow> string option) \<Rightarrow> document list \<Rightarrow> (string \<times> nat) list" where
  "top_n n key docs = take n (sort_key rank_key (group_counts key docs))"

definition ranks_before :: "string \<times> nat \<Rightarrow> string \<times> nat \<Rightarrow> bool" where
  "ranks_before p q = (snd q < snd p \<or> (snd p = snd q \<and> fst p < fst q))"


section \<open>Properties of documents used in the statements\<close>

definition ts_sat :: "(int \<Rightarrow> bool) \<Rightarrow> document \<Rightarrow> bool" where
  "ts_sat P d = (case field d ''timestamp'' of Some (JDate t) \<Rightarrow> P t | _ \<Rightarrow> False)"

definition level_sat :: "(int \<Rightarrow> bool) \<Rightarrow> document \<Rightarrow> bool" where
  "level_sat P d = (case field d ''rule_level'' of Some (JInt l) \<Rightarrow> P l | _ \<Rightarrow> False)"

definition group_sat :: "string list option \<Rightarrow> document \<Rightarrow> bool" where
  "group_sat group_names d = (case group_names of
       None \<Rightarrow> True
     | Some gs \<Rightarrow> gs = [] \<or> (case field d ''group_name'' of Some (JStr g) \<Rightarrow> g \<in> set gs | _ \<Rightarrow> False))"

definition timestamp_of :: "document \<Rightarrow> int" where
  "timestamp_of d = (case field d ''timestamp'' of Some (JDate t) \<Rightarrow> t | _ \<Rightarrow> 0)"



definition quiet :: "es_store \<Rightarrow> bool" where
  "quiet st = (script st = [])"


section \<open>Example inputs\<close>

text \<open>
  Concrete clocks, documents and stores on which the theorems below are instantiated.
\<close>

definition example_clock :: clock where
  "example_clock = \<lparr>now_year = 2024, now_month = 8, utcnow = 50\<rparr>"

definition event_doc :: "int \<Rightarrow> int \<Rightarrow> string \<Rightarrow> document" where
  "event_doc t l g = EventModel_to_dict (EventModel_init
     \<lparr>e_timestamp = t, e_agent_id = ''001'', e_agent_ip = ''192.168.1.101'',
      e_rule_description = ''File integrity checksum changed.'', e_rule_level = l,
      e_rule_id = ''550'', e_rule_mitre_id = None, e_rule_mitre_tactic = None,
      e_rule_mitre_technique = None, e_group_name = g\<rparr>)"

definition store_of :: "entry list \<Rightarrow> es_store" where
  "store_of es = \<lparr>indices = [(''2024_08_agents_data'', \<lparr>idx_mapping = index_mapping, idx_docs = es\<rparr>)],
      next_auto = length es, script = []\<rparr>"

definition severity_store :: es_store where
  "severity_store = store_of
     [(''auto_0'', event_doc 5 7 ''g''), (''auto_1'', event_doc 5 8 ''g''),
      (''auto_2'', event_doc 6 14 ''g''), (''auto_3'', event_doc 7 15 ''g''),
      (''auto_4'', event_doc 10 10 ''g'')]"


definition feed_match :: "int \<Rightarrow> int \<Rightarrow> string list option \<Rightarrow> document \<Rightarrow> bool" where
  "feed_match s e gs d =
     (ts_sat (\<lambda>t. s \<le> t \<and> t < e) d \<and> level_sat (\<lambda>l. 8 < l) d \<and> group_sat gs d)"

definition feed_store :: es_store where
  "feed_store = store_of
     [(''auto_0'', event_doc 1 9 ''g''), (''auto_1'', event_doc 2 12 ''g''),
      (''auto_2'', event_doc 3 8 ''g''), (''auto_3'', event_doc 4 15 ''h''),
      (''auto_4'', event_doc 5 10 ''g''), (''auto_5'', event_doc 6 3 ''h''),
      (''auto_6'', event_doc 7 11 ''h'')]"







definition example_agent :: agent where
  "example_agent =
     \<lparr>a_agent_name = ''test-agent-1'', a_agent_id = ''001'', a_ip = ''192.168.1.100'',
      a_agent_status = ''Active'', a_status_code = 0, a_last_keep_alive = 40,
      a_os = ''Ubuntu'', a_os_version = ''20.04'', a_group_name = ''group1''\<rparr>"



definition crowd :: "nat \<Rightarrow> entry list" where
  "crowd n = map (\<lambda>i. (''auto_'' @ dec i, event_doc (int i) 9 ''g'')) [0..<n]"

definition crowded_store :: es_store where
  "crowded_store = store_of (crowd 10001)"


fun is_fault :: "env \<Rightarrow> bool" where
  "is_fault (Fails e) = True"
| "is_fault Quiet = False"
| "is_fault (Creates n) = False"

definition faultless :: "es_store \<Rightarrow> bool" where
  "faultless st = list_all (\<lambda>x. \<not> is_fault x) (script st)"

definition empty_store :: es_store where
  "empty_store = \<lparr>indices = [], next_auto = 0, script = []\<rparr>"

definition racing_store :: es_store where
  "racing_store = \<lparr>indices = [], next_auto = 0,
      script = [Quiet, Creates ''2024_08_agents_data'']\<rparr>"

definition refusing_store :: es_store where
  "refusing_store = \<lparr>indices = [], next_auto = 0,
      script = [Quiet, Fails (TransportError ''connection refused'')]\<rparr>"

definition notfound_store :: es_store where
  "notfound_store = \<lparr>indices = [], next_auto = 0,
      script = [Fails (NotFoundError ''index_not_found_exception'')]\<rparr>"

definition timeout_store :: es_store where
  "timeout_store = store_of [] \<lparr>script := [Quiet, Fails (TransportError ''connection timed out'')]\<rparr>"

definition store_fails :: "clock \<Rightarrow> es_store \<Rightarrow> exn \<Rightarrow> bool" where
  "store_fails clk st e =
     (case script st of
        Fails x # r \<Rightarrow> x = e
      | Quiet # Fails x # r \<Rightarrow> x = e \<and> index_exists st (index_name_of clk)
      | _ \<Rightarrow> False)"




definition schema_example_event :: document where
  "schema_example_event =
     [(''timestamp'', JDate 1722596400), (''agent_id'', JStr ''001''),
      (''agent_ip'', JStr ''192.168.1.101''),
      (''rule_description'', JStr ''File integrity checksum changed.''),
      (''rule_level'', JInt 7), (''rule_id'', JStr ''550''),
      (''rule_mitre_id'', JStr ''T1565''),
      (''rule_mitre_tactic'', JList [JStr ''Impact'']),
      (''rule_mitre_technique'', JStr ''Data Manipulation''),
      (''group_name'', JStr ''threathunting''),
      (''wazuh_data_type'', JStr ''wazuh_events'')]"

definition string_tactic_event :: document where
  "string_tactic_event =
     [(''timestamp'', JDate 1722596400), (''agent_id'', JStr ''001''),
      (''agent_ip'', JStr ''192.168.1.101''),
      (''rule_description'', JStr ''File integrity checksum changed.''),
      (''rule_level'', JInt 7), (''rule_id'', JStr ''550''),
      (''rule_mitre_id'', JStr ''T1565''),
      (''rule_mitre_tactic'', JStr ''Impact''),
      (''rule_mitre_technique'', JStr ''Data Manipulation''),
      (''group_name'', JStr ''threathunting''),
      (''wazuh_data_type'', JStr ''wazuh_events'')]"

definition named :: "string \<Rightarrow> document" where
  "named a = [(''agent_name'', JStr a), (''wazuh_data_type'', JStr ''wazuh_events'')]"

definition ranking_docs :: "document list" where
  "ranking_docs =
     [named ''B'', named ''A'', named ''C'', named ''B'', named ''A'',
      [(''agent_name'', JNull)], named ''B'', [(''rule_level'', JInt 3)], named ''A'']"

section \<open>The store and the partition manager: basic facts\<close>

lemma docs_of_put_index_other:
  "n \<noteq> name \<Longrightarrow> docs_of (put_index name ix st) n = docs_of st n"
  by (simp add: docs_of_def put_index_def update_conv')

lemma docs_of_put_index_same:
  "docs_of (put_index name ix st) name = map snd (idx_docs ix)"
  by (simp add: docs_of_def put_index_def update_conv')

lemma docs_of_script [simp]: "docs_of (st\<lparr>script := r\<rparr>) n = docs_of st n"
  by (simp add: docs_of_def)

lemma index_exists_script [simp]: "index_exists (st\<lparr>script := r\<rparr>) n = index_exists st n"
  by (simp add: index_exists_def)

lemma docs_of_put_empty:
  "\<not> index_exists st name \<Longrightarrow> idx_docs ix = [] \<Longrightarrow> docs_of (put_index name ix st) n = docs_of st n"
  by (cases "n = name") (auto simp: docs_of_def put_index_def update_conv' index_exists_def)

lemma serve_docs: "docs_of (snd (serve st)) n = docs_of st n"
  by (auto simp: serve_def docs_of_put_empty split: list.splits env.splits)

lemma serve_quiet: "quiet st \<Longrightarrow> serve st = (None, st)"
  by (simp add: serve_def quiet_def)

lemma es_indices_exists_docs: "docs_of (snd (es_indices_exists name st)) n = docs_of st n"
  using serve_docs [of st n]
  by (auto simp: es_indices_exists_def split: prod.splits option.splits)

lemma es_indices_create_docs: "docs_of (snd (es_indices_create name m st)) n = docs_of st n"
  using serve_docs [of st n]
  by (auto simp: es_indices_create_def docs_of_put_empty split: prod.splits option.splits)

lemma create_index_docs: "docs_of (snd (create_index_with_mapping clk st)) n = docs_of st n"
proof -
  obtain r1 st1 where e: "es_indices_exists (index_name_of clk) st = (r1, st1)"
    by (cases "es_indices_exists (index_name_of clk) st")
  then have d1: "docs_of st1 n = docs_of st n"
    using es_indices_exists_docs [of "index_name_of clk" st n] by simp
  obtain r2 st2 where c: "es_indices_create (index_name_of clk) index_mapping st1 = (r2, st2)"
    by (cases "es_indices_create (index_name_of clk) index_mapping st1")
  then have d2: "docs_of st2 n = docs_of st1 n"
    using es_indices_create_docs [of "index_name_of clk" index_mapping st1 n] by simp
  show ?thesis
    using e c d1 d2
    by (auto simp: create_index_with_mapping_def Let_def split: sum.splits bool.splits exn.splits)
qed

lemma get_index_name_docs: "docs_of (snd (get_index_name clk st)) n = docs_of st n"
  by (simp add: get_index_name_def create_index_docs)

lemma create_index_name: "fst (create_index_with_mapping clk st) = Inr k \<Longrightarrow> k = index_name_of clk"
  by (auto simp: create_index_with_mapping_def Let_def split: prod.splits sum.splits bool.splits exn.splits if_splits)

lemma get_index_name_key: "fst (get_index_name clk st) = Inr k \<Longrightarrow> k = index_name_of clk"
  by (simp add: get_index_name_def create_index_name)

lemma index_exists_put_index [simp]: "index_exists (put_index name ix st) name"
  by (simp add: index_exists_def put_index_def update_conv')

lemma quiet_put_index [simp]: "quiet (put_index name ix st) = quiet st"
  by (simp add: quiet_def put_index_def)

lemma create_index_quiet:
  assumes "quiet st"
  shows "\<exists>st1. create_index_with_mapping clk st = (Inr (index_name_of clk), st1)
           \<and> quiet st1 \<and> index_exists st1 (index_name_of clk)"
  using assms
  by (auto simp: create_index_with_mapping_def Let_def es_indices_exists_def es_indices_create_def
        serve_quiet split: bool.splits)

lemma get_index_name_quiet:
  "quiet st \<Longrightarrow> \<exists>st1. get_index_name clk st = (Inr (index_name_of clk), st1)
           \<and> quiet st1 \<and> index_exists st1 (index_name_of clk)"
  by (simp add: get_index_name_def create_index_quiet)

lemma length_matching: "map_of (indices st) name = Some ix \<Longrightarrow>
   length (matching qu ix) = length (filter (matches qu) (docs_of st name))"
  by (simp add: matching_def docs_of_def filter_map comp_def)

lemma es_count_value:
  assumes "es_count name qu st = (Inr n, st1)"
  shows "n = length (filter (matches qu) (docs_of st name))"
proof -
  obtain o1 s1 where sv: "serve st = (o1, s1)" by (cases "serve st")
  have d: "docs_of s1 name = docs_of st name" using serve_docs [of st name] sv by simp
  from assms sv obtain ix where "map_of (indices s1) name = Some ix" "n = length (matching qu ix)"
    by (auto simp: es_count_def split: option.splits)
  then show ?thesis using length_matching [of s1 name ix qu] d by simp
qed

lemma es_count_quiet:
  "quiet st \<Longrightarrow> index_exists st name \<Longrightarrow> \<exists>n. es_count name qu st = (Inr n, st)"
  by (auto simp: es_count_def serve_quiet index_exists_def)

lemma matches_high_level:
  "matches (high_level_query s e) d =
     (ts_sat (\<lambda>t. s \<le> t \<and> t < e) d \<and> level_sat (\<lambda>l. 8 \<le> l \<and> l \<le> 14) d)"
  by (auto simp: high_level_query_def ts_sat_def level_sat_def indexed_def
      split: option.splits json.splits)

lemma example_index_name: "index_name_of example_clock = ''2024_08_agents_data''"
  by (simp add: index_name_of_def strftime_Y_m_def example_clock_def pad_def)

lemma field_EventModel_timestamp: "field (EventModel_to_dict m) ''timestamp'' = Some (JDate (em_timestamp m))"
  by (simp add: field_def EventModel_to_dict_def)

lemma field_EventModel_rule_level: "field (EventModel_to_dict m) ''rule_level'' = Some (JInt (em_rule_level m))"
  by (simp add: field_def EventModel_to_dict_def)

lemma ts_sat_event_doc: "ts_sat P (event_doc t l g) = P t"
  by (simp add: ts_sat_def event_doc_def field_EventModel_timestamp EventModel_init_def)

lemma level_sat_event_doc: "level_sat P (event_doc t l g) = P l"
  by (simp add: level_sat_def event_doc_def field_EventModel_rule_level EventModel_init_def)

lemma docs_of_store_of: "docs_of (store_of es) ''2024_08_agents_data'' = map snd es"
  by (simp add: docs_of_def store_of_def)

section \<open>High-severity count\<close>

text \<open>
  Claim C1. For every start and end time, the high-severity count returns the number of
  documents of the active partition whose \<open>rule_level\<close> lies in 8..14 (bounds included)
  and whose timestamp lies in the half-open window from start (included) to end (excluded).
  In a quiet world the call returns that number; whenever it returns, it returns that number.
  The result is a bare count: the operation asks the store for a count, never for documents.
\<close>

theorem high_level_event_count_correct:
  "(quiet st \<longrightarrow> (\<exists>st1. get_high_level_event_count clk s e st =
        (Inr (length (filter (\<lambda>d. ts_sat (\<lambda>t. s \<le> t \<and> t < e) d \<and> level_sat (\<lambda>l. 8 \<le> l \<and> l \<le> 14) d)
                 (docs_of st (index_name_of clk)))), st1)))
   \<and> (\<forall>n. fst (get_high_level_event_count clk s e st) = Inr n \<longrightarrow>
        n = length (filter (\<lambda>d. ts_sat (\<lambda>t. s \<le> t \<and> t < e) d \<and> level_sat (\<lambda>l. 8 \<le> l \<and> l \<le> 14) d)
                 (docs_of st (index_name_of clk))))"
proof -
  let ?N = "length (filter (\<lambda>d. ts_sat (\<lambda>t. s \<le> t \<and> t < e) d \<and> level_sat (\<lambda>l. 8 \<le> l \<and> l \<le> 14) d)
                 (docs_of st (index_name_of clk)))"
  have val: "n = ?N" if r: "fst (get_high_level_event_count clk s e st) = Inr n" for n
  proof -
    obtain r1 st1 where g: "get_index_name clk st = (r1, st1)" by (cases "get_index_name clk st")
    from r g obtain k where k: "r1 = Inr k"
      by (cases r1) (auto simp: get_high_level_event_count_def)
    then have kn: "k = index_name_of clk" using get_index_name_key [of clk st k] g by simp
    have d: "docs_of st1 k = docs_of st k" using get_index_name_docs [of clk st k] g by simp
    obtain r2 st2 where c: "es_count k (high_level_query s e) st1 = (r2, st2)"
      by (cases "es_count k (high_level_query s e) st1")
    from r g k c have "r2 = Inr n"
      by (cases r2) (auto simp: get_high_level_event_count_def)
    then have "n = length (filter (matches (high_level_query s e)) (docs_of st1 k))"
      using es_count_value c by simp
    then show ?thesis using d kn matches_high_level [of s e] by (simp add: matches_high_level cong: filter_cong)
  qed
  have run: "\<exists>st1. get_high_level_event_count clk s e st = (Inr ?N, st1)" if q: "quiet st"
  proof -
    from get_index_name_quiet [OF q, of clk] obtain st1 where
      g: "get_index_name clk st = (Inr (index_name_of clk), st1)" and q1: "quiet st1"
      and x: "index_exists st1 (index_name_of clk)" by blast
    from es_count_quiet [OF q1 x] obtain n where
      c: "es_count (index_name_of clk) (high_level_query s e) st1 = (Inr n, st1)" by blast
    have res: "get_high_level_event_count clk s e st = (Inr n, st1)"
      using g c by (simp add: get_high_level_event_count_def)
    then have "n = ?N" using val [of n] by simp
    then show ?thesis using res by blast
  qed
  show ?thesis using val run by blast
qed

theorem high_level_event_count_witness:
  "quiet severity_store \<and> fst (get_high_level_event_count example_clock 0 10 severity_store) = Inr 2"
proof -
  have q: "quiet severity_store" by (simp add: quiet_def severity_store_def store_of_def)
  have n: "length (filter (\<lambda>d. ts_sat (\<lambda>t. 0 \<le> t \<and> t < 10) d \<and> level_sat (\<lambda>l. 8 \<le> l \<and> l \<le> 14) d)
                 (docs_of severity_store (index_name_of example_clock))) = 2"
    by (simp add: example_index_name severity_store_def docs_of_store_of ts_sat_event_doc level_sat_event_doc)
  from high_level_event_count_correct [of severity_store example_clock 0 10] q
  obtain st1 where "get_high_level_event_count example_clock 0 10 severity_store =
        (Inr (length (filter (\<lambda>d. ts_sat (\<lambda>t. 0 \<le> t \<and> t < 10) d \<and> level_sat (\<lambda>l. 8 \<le> l \<and> l \<le> 14) d)
                 (docs_of severity_store (index_name_of example_clock)))), st1)"
    by blast
  then have "fst (get_high_level_event_count example_clock 0 10 severity_store) = Inr 2"
    by (simp only: n fst_conv)
  with q show ?thesis by simp
qed

section \<open>Searching and sorting\<close>

lemma mset_sort1: "mset (sort1 ko es) = mset es"
proof -
  have "mset (filter (\<lambda>e. sort_val (fst ko) e \<noteq> None) es) + mset (filter (\<lambda>e. sort_val (fst ko) e = None) es) = mset es"
    using multiset_partition [of "mset es" "\<lambda>e. sort_val (fst ko) e \<noteq> None"] by simp
  then show ?thesis
    by (cases "snd ko") (simp_all add: sort1_def Let_def)
qed

lemma mset_sort_entries: "mset (sort_entries spec es) = mset es"
  by (induction spec) (simp_all add: sort_entries_def mset_sort1)

lemma set_sort_entries: "set (sort_entries spec es) = set es"
  using mset_sort_entries [of spec es] by (metis set_mset_mset)

lemma length_sort_entries: "length (sort_entries spec es) = length es"
  using mset_sort_entries [of spec es] by (metis size_mset)

lemma ts_sat_sort_val:
  "ts_sat P (snd e) \<Longrightarrow> sort_val ''timestamp'' e = Some (timestamp_of (snd e))"
  by (auto simp: ts_sat_def sort_val_def timestamp_of_def indexed_def split: option.splits json.splits)

lemma sort1_all_present:
  assumes "\<forall>e\<in>set es. sort_val k e \<noteq> None"
  shows "sort1 (k, Desc) es = sort_key (\<lambda>e. - the (sort_val k e)) es"
    and "sort1 (k, Asc) es = sort_key (\<lambda>e. the (sort_val k e)) es"
proof -
  have p: "filter (\<lambda>e. sort_val k e \<noteq> None) es = es" using assms by (simp add: filter_id_conv)
  have m: "filter (\<lambda>e. sort_val k e = None) es = []" using assms by (simp add: filter_empty_conv)
  show "sort1 (k, Desc) es = sort_key (\<lambda>e. - the (sort_val k e)) es"
    unfolding sort1_def Let_def fst_conv snd_conv p m by simp
  show "sort1 (k, Asc) es = sort_key (\<lambda>e. the (sort_val k e)) es"
    unfolding sort1_def Let_def fst_conv snd_conv p m by simp
qed

lemma sorted_desc_timestamp:
  assumes "\<forall>e\<in>set es. ts_sat P (snd e)"
  shows "sorted_wrt (\<lambda>a b. timestamp_of (snd b) \<le> timestamp_of (snd a))
           (sort_entries [(''timestamp'', Desc)] es)"
proof -
  have pres: "\<forall>e\<in>set es. sort_val ''timestamp'' e \<noteq> None"
    using assms ts_sat_sort_val by fastforce
  let ?r = "sort_key (\<lambda>e. - the (sort_val ''timestamp'' e)) es"
  have eq: "sort_entries [(''timestamp'', Desc)] es = ?r"
    by (simp add: sort_entries_def sort1_all_present(1) [OF pres])
  have "sorted (map (\<lambda>e. - the (sort_val ''timestamp'' e)) ?r)" by (rule sorted_sort_key)
  then have s: "sorted_wrt (\<lambda>a b. - the (sort_val ''timestamp'' a) \<le> - the (sort_val ''timestamp'' b)) ?r"
    by (simp add: sorted_map)
  have "sorted_wrt (\<lambda>a b. timestamp_of (snd b) \<le> timestamp_of (snd a)) ?r"
  proof (rule sorted_wrt_mono_rel [OF _ s])
    fix a b assume "a \<in> set ?r" "b \<in> set ?r"
      and le: "- the (sort_val ''timestamp'' a) \<le> - the (sort_val ''timestamp'' b)"
    then have "ts_sat P (snd a)" "ts_sat P (snd b)" using assms by auto
    then show "timestamp_of (snd b) \<le> timestamp_of (snd a)"
      using le by (simp add: ts_sat_sort_val)
  qed
  then show ?thesis by (simp only: eq)
qed

lemma sorted_asc_timestamp:
  assumes "\<forall>e\<in>set es. ts_sat P (snd e)"
  shows "sorted_wrt (\<lambda>a b. timestamp_of (snd a) \<le> timestamp_of (snd b))
           (sort_entries [(''timestamp'', Asc)] es)"
proof -
  have pres: "\<forall>e\<in>set es. sort_val ''timestamp'' e \<noteq> None"
    using assms ts_sat_sort_val by fastforce
  let ?r = "sort_key (\<lambda>e. the (sort_val ''timestamp'' e)) es"
  have eq: "sort_entries [(''timestamp'', Asc)] es = ?r"
    by (simp add: sort_entries_def sort1_all_present(2) [OF pres])
  have "sorted (map (\<lambda>e. the (sort_val ''timestamp'' e)) ?r)" by (rule sorted_sort_key)
  then have s: "sorted_wrt (\<lambda>a b. the (sort_val ''timestamp'' a) \<le> the (sort_val ''timestamp'' b)) ?r"
    by (simp add: sorted_map)
  have "sorted_wrt (\<lambda>a b. timestamp_of (snd a) \<le> timestamp_of (snd b)) ?r"
  proof (rule sorted_wrt_mono_rel [OF _ s])
    fix a b assume "a \<in> set ?r" "b \<in> set ?r"
      and le: "the (sort_val ''timestamp'' a) \<le> the (sort_val ''timestamp'' b)"
    then have "ts_sat P (snd a)" "ts_sat P (snd b)" using assms by auto
    then show "timestamp_of (snd a) \<le> timestamp_of (snd b)"
      using le by (simp add: ts_sat_sort_val)
  qed
  then show ?thesis by (simp only: eq)
qed

text \<open>What a successful search returns.\<close>

lemma es_search_Inr:
  assumes "es_search name body st = (Inr r, st1)"
  shows "\<exists>ix. map_of (indices st1) name = Some ix \<and> 0 \<le> sb_size body
           \<and> docs_of st1 name = docs_of st name
           \<and> map h_source (hits r) =
               map snd (take (nat (sb_size body)) (sort_entries (sb_sort body) (matching (sb_query body) ix)))
           \<and> total r = min (length (matching (sb_query body) ix)) TRACK_TOTAL_HITS"
proof -
  obtain o1 s1 where sv: "serve st = (o1, s1)" by (cases "serve st")
  have d: "docs_of s1 name = docs_of st name" using serve_docs [of st name] sv by simp
  from assms sv have o1: "o1 = None" by (cases o1) (auto simp: es_search_def)
  from assms sv o1 obtain ix where ix: "map_of (indices s1) name = Some ix"
    by (cases "map_of (indices s1) name") (auto simp: es_search_def)
  from assms sv o1 ix have sz: "0 \<le> sb_size body"
    by (cases "sb_size body < 0") (auto simp: es_search_def)
  from assms sv o1 ix sz have "st1 = s1" and
    r: "r = \<lparr>hits = map (\<lambda>e. \<lparr>h_index = name, h_id = fst e, h_source = snd e\<rparr>)
                  (take (nat (sb_size body)) (sort_entries (sb_sort body) (matching (sb_query body) ix))),
             total = min (length (matching (sb_query body) ix)) TRACK_TOTAL_HITS\<rparr>"
    by (auto simp: es_search_def Let_def)
  with ix sz d show ?thesis by (simp add: comp_def)
qed

lemma es_search_quiet:
  assumes "quiet st" "index_exists st name" "0 \<le> sb_size body"
  shows "\<exists>r. es_search name body st = (Inr r, st)"
  using assms by (auto simp: es_search_def serve_quiet index_exists_def Let_def)

lemma map_snd_matching:
  "map_of (indices st) name = Some ix \<Longrightarrow>
     map snd (matching qu ix) = filter (matches qu) (docs_of st name)"
  by (simp add: matching_def docs_of_def filter_map comp_def)

lemma matches_group_terms:
  "matches (Terms ''group_name'' (map JStr gs)) d = group_sat (Some gs) d \<or> gs = []"
  by (auto simp: group_sat_def indexed_def split: option.splits json.splits)

lemma matches_group_terms_nonempty:
  "gs \<noteq> [] \<Longrightarrow> matches (Terms ''group_name'' (map JStr gs)) d = group_sat (Some gs) d"
  by (auto simp: group_sat_def indexed_def split: option.splits json.splits)

lemma matches_ts_range_lt:
  "matches (Range ''timestamp'' [Gte (JDate s), Lt (JDate e)]) d = ts_sat (\<lambda>t. s \<le> t \<and> t < e) d"
  by (auto simp: ts_sat_def indexed_def split: option.splits json.splits)



lemma matches_level_gt:
  "matches (Range ''rule_level'' [Gt (JInt b)]) d = level_sat (\<lambda>l. b < l) d"
  by (auto simp: level_sat_def indexed_def split: option.splits json.splits)

lemma matches_load_messages:
  "matches (sb_query (load_messages_query s e gs limit)) d = feed_match s e gs d"
proof (cases gs)
  case None
  then show ?thesis
    by (simp add: load_messages_query_def feed_match_def matches_ts_range_lt matches_level_gt
        group_sat_def del: matches.simps(3))
next
  case (Some g)
  show ?thesis
  proof (cases "g = []")
    case True
    with Some show ?thesis
      by (simp add: load_messages_query_def feed_match_def matches_ts_range_lt matches_level_gt
          group_sat_def del: matches.simps(3))
  next
    case False
    with Some show ?thesis
      by (simp add: load_messages_query_def feed_match_def matches_ts_range_lt matches_level_gt
          matches_group_terms_nonempty del: matches.simps(2,3))
  qed
qed

lemma matches_load_messages_fun:
  "matches (sb_query (load_messages_query s e gs limit)) = feed_match s e gs"
  by (rule ext) (rule matches_load_messages)

lemma load_messages_Inr:
  assumes "fst (load_messages clk s e gs limit st) = Inr (page, tot)"
  shows "\<exists>S::entry list. mset (map snd S) = mset (filter (feed_match s e gs) (docs_of st (index_name_of clk)))
           \<and> sorted_wrt (\<lambda>a b. timestamp_of (snd b) \<le> timestamp_of (snd a)) S
           \<and> page = map snd (take (nat limit) S) \<and> tot = min (length S) TRACK_TOTAL_HITS
           \<and> 0 \<le> limit"
proof -
  define b where "b = load_messages_query s e gs limit"
  have bq: "matches (sb_query b) = feed_match s e gs"
    unfolding b_def by (rule matches_load_messages_fun)
  have bs: "sb_sort b = [(''timestamp'', Desc)]" and bz: "sb_size b = limit"
    unfolding b_def by (simp_all add: load_messages_query_def)
  obtain r1 st1 where g: "get_index_name clk st = (r1, st1)" by (cases "get_index_name clk st")
  from assms g obtain k where k: "r1 = Inr k"
    by (cases r1) (auto simp: load_messages_def)
  then have kn: "k = index_name_of clk" using get_index_name_key [of clk st k] g by simp
  have d1: "docs_of st1 k = docs_of st k" using get_index_name_docs [of clk st k] g by simp
  obtain r2 st2 where c: "es_search k b st1 = (r2, st2)" by (cases "es_search k b st1")
  from assms g k c obtain r where r: "r2 = Inr r" and pg: "page = sources r" and tt: "tot = total r"
    by (cases r2) (auto simp: load_messages_def b_def)
  from es_search_Inr [of k b st1 r st2] c r obtain ix where
    ix: "map_of (indices st2) k = Some ix" and sz: "0 \<le> sb_size b"
    and d2: "docs_of st2 k = docs_of st1 k"
    and h: "map h_source (hits r) =
       map snd (take (nat (sb_size b)) (sort_entries (sb_sort b) (matching (sb_query b) ix)))"
    and t: "total r = min (length (matching (sb_query b) ix)) TRACK_TOTAL_HITS" by blast
  define ms where "ms = matching (sb_query b) ix"
  define S where "S = sort_entries [(''timestamp'', Desc)] ms"
  have "map snd ms = filter (matches (sb_query b)) (docs_of st2 k)"
    unfolding ms_def by (rule map_snd_matching [OF ix])
  moreover have "docs_of st2 k = docs_of st (index_name_of clk)" using d1 d2 kn by simp
  ultimately have M: "map snd ms = filter (feed_match s e gs) (docs_of st (index_name_of clk))"
    by (simp only: bq)
  have all: "\<forall>en\<in>set ms. ts_sat (\<lambda>t. s \<le> t \<and> t < e) (snd en)"
    unfolding ms_def matching_def bq by (simp add: feed_match_def)
  have "mset S = mset ms" unfolding S_def by (rule mset_sort_entries)
  then have "mset (map snd S) = mset (map snd ms)" by simp
  then have c1: "mset (map snd S) = mset (filter (feed_match s e gs) (docs_of st (index_name_of clk)))"
    by (simp only: M)
  have c2: "sorted_wrt (\<lambda>a b. timestamp_of (snd b) \<le> timestamp_of (snd a)) S"
    unfolding S_def by (rule sorted_desc_timestamp [OF all])
  have c3: "page = map snd (take (nat limit) S)"
    using pg h by (simp only: sources_def bs bz S_def ms_def)
  have c4: "tot = min (length S) TRACK_TOTAL_HITS"
    using tt t by (simp only: S_def ms_def length_sort_entries)
  have c5: "0 \<le> limit" using sz by (simp only: bz)
  from c1 c2 c3 c4 c5 show ?thesis by blast
qed

lemma load_messages_quiet:
  assumes "quiet st" "0 \<le> limit"
  shows "\<exists>page tot st1. load_messages clk s e gs limit st = (Inr (page, tot), st1)"
proof -
  from get_index_name_quiet [OF assms(1), of clk] obtain st1 where
    g: "get_index_name clk st = (Inr (index_name_of clk), st1)" and q1: "quiet st1"
    and x: "index_exists st1 (index_name_of clk)" by blast
  have "0 \<le> sb_size (load_messages_query s e gs limit)" using assms(2) by (simp add: load_messages_query_def)
  from es_search_quiet [OF q1 x this] obtain r where
    "es_search (index_name_of clk) (load_messages_query s e gs limit) st1 = (Inr r, st1)" by blast
  with g show ?thesis by (simp add: load_messages_def)
qed

section \<open>Paginated high-severity feed\<close>

lemma field_EventModel_group_name: "field (EventModel_to_dict m) ''group_name'' = Some (JStr (em_group_name m))"
  by (simp add: field_def EventModel_to_dict_def)

lemma group_sat_event_doc:
  "group_sat gs (event_doc t l g) = (case gs of None \<Rightarrow> True | Some ns \<Rightarrow> ns = [] \<or> g \<in> set ns)"
  by (simp add: group_sat_def event_doc_def field_EventModel_group_name EventModel_init_def
      split: option.splits)

lemma feed_match_event_doc:
  "feed_match s e gs (event_doc t l g) =
     (s \<le> t \<and> t < e \<and> 8 < l \<and> (case gs of None \<Rightarrow> True | Some ns \<Rightarrow> ns = [] \<or> g \<in> set ns))"
  by (simp add: feed_match_def ts_sat_event_doc level_sat_event_doc group_sat_event_doc)

lemma page_of_feed:
  fixes S :: "entry list"
  assumes m: "mset (map snd S) = mset M"
    and srt: "sorted_wrt (\<lambda>a b. timestamp_of (snd b) \<le> timestamp_of (snd a)) S"
    and pg: "page = map snd (take n S)"
  shows "length S = length M"
    and "length page = min n (length M)"
    and "mset page \<subseteq># mset M"
    and "sorted_wrt (\<lambda>a b. timestamp_of b \<le> timestamp_of a) page"
    and "\<forall>d \<in># mset M - mset page. \<forall>x\<in>set page. timestamp_of d \<le> timestamp_of x"
proof -
  show len: "length S = length M" using m by (metis length_map size_mset)
  show "length page = min n (length M)" using pg len by simp
  have split: "mset M = mset page + mset (map snd (drop n S))"
  proof -
    have "map snd S = map snd (take n S) @ map snd (drop n S)"
      by (metis append_take_drop_id map_append)
    then have "mset (map snd S) = mset (map snd (take n S)) + mset (map snd (drop n S))"
      by (metis mset_append)
    then show ?thesis using m pg by simp
  qed
  then show "mset page \<subseteq># mset M" by simp
  have "sorted_wrt (\<lambda>a b. timestamp_of (snd b) \<le> timestamp_of (snd a)) (take n S)"
    using srt by (rule sorted_wrt_take)
  then show "sorted_wrt (\<lambda>a b. timestamp_of b \<le> timestamp_of a) page"
    unfolding pg by (simp add: sorted_wrt_map)
  have "sorted_wrt (\<lambda>a b. timestamp_of (snd b) \<le> timestamp_of (snd a)) (take n S @ drop n S)"
    using srt by simp
  then have ord: "\<forall>x\<in>set (take n S). \<forall>y\<in>set (drop n S). timestamp_of (snd y) \<le> timestamp_of (snd x)"
    unfolding sorted_wrt_append by blast
  have rest: "mset M - mset page = mset (map snd (drop n S))" using split by simp
  show "\<forall>d \<in># mset M - mset page. \<forall>x\<in>set page. timestamp_of d \<le> timestamp_of x"
  proof (intro ballI)
    fix d x assume "d \<in># mset M - mset page" and "x \<in> set page"
    then have "d \<in> snd ` set (drop n S)" and "x \<in> snd ` set (take n S)"
      using rest pg by simp_all
    then show "timestamp_of d \<le> timestamp_of x" using ord by auto
  qed
qed

text \<open>
  What the feed returns, in every store: the page holds only documents that match, in
  descending order of timestamp, min(limit, number of matches) of them and the latest
  ones; the total is the number of matches when there are at most 10000 of them, and
  10000 when there are more. In a quiet world the call returns.
\<close>

lemma load_messages_page:
  assumes "1 \<le> limit" and "limit \<le> 100"
  shows "(quiet st \<longrightarrow> (\<exists>page tot st1. load_messages clk s e gs limit st = (Inr (page, tot), st1)))
    \<and> (\<forall>page tot. fst (load_messages clk s e gs limit st) = Inr (page, tot) \<longrightarrow>
          tot = min (length (filter (feed_match s e gs) (docs_of st (index_name_of clk)))) TRACK_TOTAL_HITS
        \<and> length page = min (nat limit) (length (filter (feed_match s e gs) (docs_of st (index_name_of clk))))
        \<and> mset page \<subseteq># mset (filter (feed_match s e gs) (docs_of st (index_name_of clk)))
        \<and> (\<forall>d\<in>set page. feed_match s e gs d)
        \<and> sorted_wrt (\<lambda>a b. timestamp_of b \<le> timestamp_of a) page
        \<and> (\<forall>d \<in># mset (filter (feed_match s e gs) (docs_of st (index_name_of clk))) - mset page.
              \<forall>x\<in>set page. timestamp_of d \<le> timestamp_of x))"
proof (intro conjI impI allI)
  assume "quiet st"
  then show "\<exists>page tot st1. load_messages clk s e gs limit st = (Inr (page, tot), st1)"
    using assms(1) by (intro load_messages_quiet) simp_all
next
  fix page tot
  assume r: "fst (load_messages clk s e gs limit st) = Inr (page, tot)"
  define M where "M = filter (feed_match s e gs) (docs_of st (index_name_of clk))"
  from load_messages_Inr [OF r] obtain S :: "entry list" where
    m: "mset (map snd S) = mset M"
    and srt: "sorted_wrt (\<lambda>a b. timestamp_of (snd b) \<le> timestamp_of (snd a)) S"
    and pg: "page = map snd (take (nat limit) S)" and tt: "tot = min (length S) TRACK_TOTAL_HITS"
    unfolding M_def by blast
  note p = page_of_feed [OF m srt pg]
  show "tot = min (length M) TRACK_TOTAL_HITS" using tt p(1) by simp
  show "length page = min (nat limit) (length M)" by (rule p(2))
  show sub: "mset page \<subseteq># mset M" by (rule p(3))
  show "\<forall>d\<in>set page. feed_match s e gs d"
  proof
    fix d assume "d \<in> set page"
    then have "d \<in> set M" using sub by (metis mset_subset_eqD set_mset_mset)
    then show "feed_match s e gs d" by (simp add: M_def)
  qed
  show "sorted_wrt (\<lambda>a b. timestamp_of b \<le> timestamp_of a) page" by (rule p(4))
  show "\<forall>d \<in># mset M - mset page. \<forall>x\<in>set page. timestamp_of d \<le> timestamp_of x" by (rule p(5))
qed

text \<open>
  The example of the specification: a limit of 2 against 5 matching events gives a page of
  2 documents and a total of 5.
\<close>

lemma load_messages_two_of_five:
  "\<exists>page st1. load_messages example_clock 0 100 None 2 feed_store = (Inr (page, 5), st1)
          \<and> length page = 2"
proof -
  have q: "quiet feed_store" by (simp add: quiet_def feed_store_def store_of_def)
  have n: "length (filter (feed_match 0 100 None) (docs_of feed_store (index_name_of example_clock))) = 5"
    by (simp add: example_index_name feed_store_def docs_of_store_of feed_match_event_doc)
  have l1: "(1::int) \<le> 2" and l2: "(2::int) \<le> 100" by simp_all
  note t = load_messages_page [OF l1 l2, of feed_store example_clock 0 100 None]
  from t q obtain page tot st1 where
    r: "load_messages example_clock 0 100 None 2 feed_store = (Inr (page, tot), st1)" by iprover
  then have f: "fst (load_messages example_clock 0 100 None 2 feed_store) = Inr (page, tot)" by simp
  from t f have "tot = min (length (filter (feed_match 0 100 None)
                    (docs_of feed_store (index_name_of example_clock)))) TRACK_TOTAL_HITS"
    and "length page = min (nat 2) (length (filter (feed_match 0 100 None)
                    (docs_of feed_store (index_name_of example_clock))))" by iprover+
  then have "tot = 5" and "length page = 2" by (simp_all only: n TRACK_TOTAL_HITS_def)
  with r show ?thesis by iprover
qed

lemma quiet_store_of: "quiet (store_of es)"
  by (simp add: quiet_def store_of_def)

lemma crowd_docs:
  "docs_of (store_of (crowd n)) (index_name_of example_clock)
     = map (\<lambda>i. event_doc (int i) 9 ''g'') [0..<n]"
  by (simp only: example_index_name docs_of_store_of crowd_def map_map comp_def snd_conv)

lemma crowd_all_match:
  assumes "int n \<le> e"
  shows "filter (feed_match 0 e None) (map (\<lambda>i. event_doc (int i) 9 ''g'') [0..<n])
           = map (\<lambda>i. event_doc (int i) 9 ''g'') [0..<n]"
  unfolding filter_id_conv using assms by (auto simp: feed_match_event_doc)

lemma crowd_matches:
  assumes "int n \<le> e"
  shows "length (filter (feed_match 0 e None) (docs_of (store_of (crowd n)) (index_name_of example_clock))) = n"
  by (simp only: crowd_docs crowd_all_match [OF assms] length_map length_upt diff_zero)

text \<open>
  Claim C3. The feed returns only events with \<open>rule_level\<close> above 8 in the time window,
  optionally restricted by group, in descending order of timestamp and truncated to the
  limit (as \<open>load_messages_page\<close> shows), together with a total that the claim says is the
  full matching count. The code takes the total from \<open>hits.total.value\<close> of a search that
  does not ask for exact totals, so the store reports at most 10000: with 10001 matching
  events in the partition, the call with limit 2 returns a total of 10000, not 10001.
\<close>

theorem load_messages_total_capped:
  "length (filter (feed_match 0 20000 None) (docs_of crowded_store (index_name_of example_clock))) = 10001
   \<and> map_sum id snd (fst (load_messages example_clock 0 20000 None 2 crowded_store)) = Inr 10000"
proof -
  have e: "int 10001 \<le> 20000" by simp
  have n: "length (filter (feed_match 0 20000 None)
             (docs_of crowded_store (index_name_of example_clock))) = 10001"
    unfolding crowded_store_def by (rule crowd_matches [OF e])
  have q: "quiet crowded_store" unfolding crowded_store_def by (rule quiet_store_of)
  have l1: "(1::int) \<le> 2" and l2: "(2::int) \<le> 100" by simp_all
  note t = load_messages_page [OF l1 l2, of crowded_store example_clock 0 20000 None]
  from t q obtain page tot st1 where
    r: "load_messages example_clock 0 20000 None 2 crowded_store = (Inr (page, tot), st1)"
    by iprover
  then have f: "fst (load_messages example_clock 0 20000 None 2 crowded_store) = Inr (page, tot)"
    by simp
  from t f have "tot = min (length (filter (feed_match 0 20000 None)
                    (docs_of crowded_store (index_name_of example_clock)))) TRACK_TOTAL_HITS"
    by iprover
  then have "tot = 10000" by (simp only: n TRACK_TOTAL_HITS_def)
  with f have "map_sum id snd (fst (load_messages example_clock 0 20000 None 2 crowded_store)) = Inr 10000"
    by simp
  with n show ?thesis by (rule conjI)
qed

section \<open>Soundness and completeness of a search\<close>









section \<open>What each query matches\<close>









section \<open>What each read returns\<close>









section \<open>Documents written by the normalizer\<close>



lemma field_AgentModel_group_name:
  "field (AgentModel_to_dict m) ''group_name'' = Some (JStr (am_group_name m))"
  by (simp add: field_def AgentModel_to_dict_def)

lemma field_AgentModel_agent_status:
  "field (AgentModel_to_dict m) ''agent_status'' = Some (JStr (lower (am_agent_status m)))"
  by (simp add: field_def AgentModel_to_dict_def)








section \<open>Time bounds of the reads\<close>



























section \<open>The discriminator field\<close>











section \<open>Idempotence of partition creation\<close>

lemma index_exists_put_index_iff:
  "index_exists (put_index m ix st) n = (n = m \<or> index_exists st n)"
  by (auto simp: index_exists_def put_index_def update_conv')

lemma faultless_put_index [simp]: "faultless (put_index m ix st) = faultless st"
  by (simp add: faultless_def put_index_def)

lemma quiet_faultless: "quiet st \<Longrightarrow> faultless st"
  by (simp add: quiet_def faultless_def)

lemma serve_faultless:
  assumes "faultless st"
  shows "\<exists>st1. serve st = (None, st1) \<and> faultless st1
           \<and> (index_exists st n \<longrightarrow> index_exists st1 n)"
proof (cases "script st")
  case Nil
  with assms show ?thesis by (simp add: serve_def)
next
  case (Cons x r)
  with assms have r: "list_all (\<lambda>x. \<not> is_fault x) r" and x: "\<not> is_fault x"
    by (simp_all add: faultless_def)
  have s: "faultless (st\<lparr>script := r\<rparr>)" using r by (simp add: faultless_def)
  show ?thesis
    using x s Cons
    by (cases x) (simp_all add: serve_def index_exists_put_index_iff)
qed

lemma create_index_faultless:
  assumes f: "faultless st"
  shows "\<exists>st1. create_index_with_mapping clk st = (Inr (index_name_of clk), st1)
           \<and> faultless st1 \<and> index_exists st1 (index_name_of clk)"
proof -
  define name where "name = index_name_of clk"
  from serve_faultless [OF f] obtain sa where
    a: "serve st = (None, sa)" and fa: "faultless sa" by blast
  show ?thesis
  proof (cases "index_exists sa name")
    case True
    then have "create_index_with_mapping clk st = (Inr name, sa)"
      using a by (simp add: create_index_with_mapping_def es_indices_exists_def name_def)
    with True fa show ?thesis unfolding name_def by blast
  next
    case False
    from serve_faultless [OF fa] obtain sb where
      b: "serve sa = (None, sb)" and fb: "faultless sb" by blast
    have e: "es_indices_exists name st = (Inr False, sa)"
      using a False by (simp add: es_indices_exists_def)
    show ?thesis
    proof (cases "index_exists sb name")
      case True
      then have "create_index_with_mapping clk st = (Inr name, sb)"
        using e b unfolding create_index_with_mapping_def name_def [symmetric]
        by (simp add: es_indices_create_def)
      with True fb show ?thesis unfolding name_def by blast
    next
      case False
      then have "create_index_with_mapping clk st
          = (Inr name, put_index name \<lparr>idx_mapping = index_mapping, idx_docs = []\<rparr> sb)"
        using e b unfolding create_index_with_mapping_def name_def [symmetric]
        by (simp add: es_indices_create_def)
      moreover have "faultless (put_index name \<lparr>idx_mapping = index_mapping, idx_docs = []\<rparr> sb)"
        using fb by simp
      moreover have "index_exists (put_index name \<lparr>idx_mapping = index_mapping, idx_docs = []\<rparr> sb) name"
        by simp
      ultimately show ?thesis unfolding name_def by blast
    qed
  qed
qed

lemma create_index_existing:
  "quiet st \<Longrightarrow> index_exists st (index_name_of clk) \<Longrightarrow>
     create_index_with_mapping clk st = (Inr (index_name_of clk), st)"
  by (simp add: create_index_with_mapping_def es_indices_exists_def serve_quiet)

lemma index_name_same_month:
  "now_year clk' = now_year clk \<Longrightarrow> now_month clk' = now_month clk \<Longrightarrow>
     index_name_of clk' = index_name_of clk"
  by (simp add: index_name_of_def strftime_Y_m_def)

lemma create_index_twice:
  assumes f: "faultless st"
    and y: "now_year clk' = now_year clk" and m: "now_month clk' = now_month clk"
  shows "\<exists>st1 st2. create_index_with_mapping clk st = (Inr (index_name_of clk), st1)
           \<and> index_exists st1 (index_name_of clk)
           \<and> create_index_with_mapping clk' st1 = (Inr (index_name_of clk), st2)
           \<and> (quiet st \<longrightarrow> st2 = st1)"
proof -
  note n = index_name_same_month [OF y m]
  from create_index_faultless [OF f, of clk] obtain st1 where
    a: "create_index_with_mapping clk st = (Inr (index_name_of clk), st1)"
    and f1: "faultless st1" and x1: "index_exists st1 (index_name_of clk)" by blast
  from create_index_faultless [OF f1, of clk'] obtain st2 where
    b: "create_index_with_mapping clk' st1 = (Inr (index_name_of clk), st2)"
    unfolding n by blast
  have "st2 = st1" if q: "quiet st"
  proof -
    from create_index_quiet [OF q, of clk] a have "quiet st1" by simp
    from create_index_existing [OF this, of clk'] x1 b show ?thesis unfolding n by simp
  qed
  with a x1 b show ?thesis by blast
qed

lemma create_index_already_exists:
  assumes "es_indices_exists (index_name_of clk) st = (Inr False, sa)"
    and "es_indices_create (index_name_of clk) index_mapping sa
            = (Inl (RequestError ''resource_already_exists_exception''), sb)"
  shows "create_index_with_mapping clk st = (Inr (index_name_of clk), sb)"
  using assms by (simp add: create_index_with_mapping_def)

lemma create_index_other_error:
  assumes "es_indices_exists (index_name_of clk) st = (Inr False, sa)"
    and "es_indices_create (index_name_of clk) index_mapping sa = (Inl e, sb)"
    and "e \<noteq> RequestError ''resource_already_exists_exception''"
  shows "create_index_with_mapping clk st = (Inl e, sb)"
  using assms by (cases e) (simp_all add: create_index_with_mapping_def)

lemma create_index_exists_error:
  assumes "es_indices_exists (index_name_of clk) st = (Inl e, sa)"
  shows "create_index_with_mapping clk st = (Inl e, sa)"
  using assms by (simp add: create_index_with_mapping_def)

text \<open>
  Claim C4. The partition key is the year on four digits, an underscore, the month on two
  digits and \<open>_agents_data\<close>; whenever the partition manager returns, it returns that key.
  When the store answers without fault, a call returns the key and leaves the partition in
  existence, and a second call in the same month returns the same key again without
  raising; in a quiet world the second call leaves the store exactly as it found it. When
  the existence check says no and the creation is refused with
  \<open>resource_already_exists_exception\<close> (another client came first), the call still returns
  the key; every other exception of the creation, and every exception of the existence
  check, reaches the caller as it is.
\<close>

theorem partition_creation_idempotent:
  "get_index_name clk st = create_index_with_mapping clk st
   \<and> index_name_of clk
       = pad 4 (dec (now_year clk)) @ ''_'' @ pad 2 (dec (now_month clk)) @ ''_agents_data''
   \<and> (\<forall>k. fst (create_index_with_mapping clk st) = Inr k \<longrightarrow> k = index_name_of clk)
   \<and> (faultless st \<and> now_year clk' = now_year clk \<and> now_month clk' = now_month clk \<longrightarrow>
        (\<exists>st1 st2. create_index_with_mapping clk st = (Inr (index_name_of clk), st1)
           \<and> index_exists st1 (index_name_of clk)
           \<and> create_index_with_mapping clk' st1 = (Inr (index_name_of clk), st2)
           \<and> (quiet st \<longrightarrow> st2 = st1)))
   \<and> (es_indices_exists (index_name_of clk) st = (Inr False, sa)
        \<and> es_indices_create (index_name_of clk) index_mapping sa
            = (Inl (RequestError ''resource_already_exists_exception''), sb)
        \<longrightarrow> create_index_with_mapping clk st = (Inr (index_name_of clk), sb))
   \<and> (es_indices_exists (index_name_of clk) st = (Inr False, sa)
        \<and> es_indices_create (index_name_of clk) index_mapping sa = (Inl e, sb)
        \<and> e \<noteq> RequestError ''resource_already_exists_exception''
        \<longrightarrow> create_index_with_mapping clk st = (Inl e, sb))
   \<and> (es_indices_exists (index_name_of clk) st = (Inl e, sa)
        \<longrightarrow> create_index_with_mapping clk st = (Inl e, sa))"
proof -
  have a: "get_index_name clk st = create_index_with_mapping clk st"
    by (simp add: get_index_name_def)
  have b: "index_name_of clk
       = pad 4 (dec (now_year clk)) @ ''_'' @ pad 2 (dec (now_month clk)) @ ''_agents_data''"
    by (simp add: index_name_of_def strftime_Y_m_def)
  have c: "\<forall>k. fst (create_index_with_mapping clk st) = Inr k \<longrightarrow> k = index_name_of clk"
    using create_index_name [of clk st] by blast
  have d: "faultless st \<and> now_year clk' = now_year clk \<and> now_month clk' = now_month clk \<longrightarrow>
        (\<exists>st1 st2. create_index_with_mapping clk st = (Inr (index_name_of clk), st1)
           \<and> index_exists st1 (index_name_of clk)
           \<and> create_index_with_mapping clk' st1 = (Inr (index_name_of clk), st2)
           \<and> (quiet st \<longrightarrow> st2 = st1))"
    using create_index_twice [of st clk' clk] by blast
  have e: "es_indices_exists (index_name_of clk) st = (Inr False, sa)
        \<and> es_indices_create (index_name_of clk) index_mapping sa
            = (Inl (RequestError ''resource_already_exists_exception''), sb)
        \<longrightarrow> create_index_with_mapping clk st = (Inr (index_name_of clk), sb)"
    using create_index_already_exists [of clk st sa sb] by blast
  have f: "es_indices_exists (index_name_of clk) st = (Inr False, sa)
        \<and> es_indices_create (index_name_of clk) index_mapping sa = (Inl e, sb)
        \<and> e \<noteq> RequestError ''resource_already_exists_exception''
        \<longrightarrow> create_index_with_mapping clk st = (Inl e, sb)"
    using create_index_other_error [of clk st sa e sb] by blast
  have g: "es_indices_exists (index_name_of clk) st = (Inl e, sa)
        \<longrightarrow> create_index_with_mapping clk st = (Inl e, sa)"
    using create_index_exists_error [of clk st e sa] by blast
  show ?thesis by (intro conjI) (fact a b c d e f g)+
qed

theorem partition_creation_idempotent_witness:
  "index_name_of example_clock = ''2024_08_agents_data''
   \<and> (\<exists>st1. create_index_with_mapping example_clock empty_store = (Inr ''2024_08_agents_data'', st1)
        \<and> index_exists st1 ''2024_08_agents_data''
        \<and> create_index_with_mapping (example_clock\<lparr>utcnow := 99\<rparr>) st1
            = (Inr ''2024_08_agents_data'', st1))
   \<and> fst (create_index_with_mapping example_clock racing_store) = Inr ''2024_08_agents_data''
   \<and> fst (create_index_with_mapping example_clock refusing_store)
       = Inl (TransportError ''connection refused'')"
proof -
  note n = example_index_name
  let ?clk2 = "example_clock\<lparr>utcnow := 99\<rparr>"
  let ?sa2 = "racing_store\<lparr>script := [Creates ''2024_08_agents_data'']\<rparr>"
  let ?sa3 = "refusing_store\<lparr>script := [Fails (TransportError ''connection refused'')]\<rparr>"
  let ?sb3 = "refusing_store\<lparr>script := []\<rparr>"
  let ?e3 = "TransportError ''connection refused''"
  have q: "quiet empty_store" by (simp add: quiet_def empty_store_def)
  have h: "faultless empty_store \<and> now_year ?clk2 = now_year example_clock
      \<and> now_month ?clk2 = now_month example_clock"
    by (simp add: faultless_def empty_store_def)
  note d = partition_creation_idempotent [of example_clock empty_store ?clk2 empty_store empty_store ?e3,
      THEN conjunct2, THEN conjunct2, THEN conjunct2, THEN conjunct1, THEN mp, OF h]
  from d obtain st1 st2 where
    a: "create_index_with_mapping example_clock empty_store = (Inr (index_name_of example_clock), st1)"
    and x: "index_exists st1 (index_name_of example_clock)"
    and b: "create_index_with_mapping ?clk2 st1 = (Inr (index_name_of example_clock), st2)"
    and i: "quiet empty_store \<longrightarrow> st2 = st1" by iprover
  from i q have "st2 = st1" by iprover
  with a x b have one: "\<exists>st1. create_index_with_mapping example_clock empty_store = (Inr ''2024_08_agents_data'', st1)
        \<and> index_exists st1 ''2024_08_agents_data''
        \<and> create_index_with_mapping ?clk2 st1 = (Inr ''2024_08_agents_data'', st1)"
    unfolding n by iprover
  have e2: "es_indices_exists (index_name_of example_clock) racing_store = (Inr False, ?sa2)"
    by (simp add: n es_indices_exists_def serve_def racing_store_def index_exists_def)
  have "\<exists>sb. es_indices_create (index_name_of example_clock) index_mapping ?sa2
      = (Inl (RequestError ''resource_already_exists_exception''), sb)"
    by (simp add: n es_indices_create_def serve_def racing_store_def index_exists_def
        put_index_def)
  then obtain sb where c2: "es_indices_create (index_name_of example_clock) index_mapping ?sa2
      = (Inl (RequestError ''resource_already_exists_exception''), sb)" by iprover
  note r2 = partition_creation_idempotent [of example_clock racing_store ?clk2 ?sa2 sb ?e3,
      THEN conjunct2, THEN conjunct2, THEN conjunct2, THEN conjunct2, THEN conjunct1,
      THEN mp, OF conjI [OF e2 c2]]
  have two: "fst (create_index_with_mapping example_clock racing_store) = Inr ''2024_08_agents_data''"
    unfolding r2 n by simp
  have e3: "es_indices_exists (index_name_of example_clock) refusing_store = (Inr False, ?sa3)"
    by (simp add: n es_indices_exists_def serve_def refusing_store_def index_exists_def)
  have c3: "es_indices_create (index_name_of example_clock) index_mapping ?sa3 = (Inl ?e3, ?sb3)"
    by (simp add: n es_indices_create_def serve_def refusing_store_def)
  have d3: "?e3 \<noteq> RequestError ''resource_already_exists_exception''" by simp
  note r3 = partition_creation_idempotent [of example_clock refusing_store ?clk2 ?sa3 ?sb3 ?e3,
      THEN conjunct2, THEN conjunct2, THEN conjunct2, THEN conjunct2, THEN conjunct2,
      THEN conjunct1, THEN mp, OF conjI [OF e3 conjI [OF c3 d3]]]
  have three: "fst (create_index_with_mapping example_clock refusing_store) = Inl ?e3"
    unfolding r3 by simp
  from n one two three show ?thesis by iprover
qed

section \<open>Fault mapping\<close>

lemma serve_fails: "script st = Fails e # r \<Longrightarrow> serve st = (Some e, st\<lparr>script := r\<rparr>)"
  by (simp add: serve_def)

lemma serve_quiet_head: "script st = Quiet # r \<Longrightarrow> serve st = (None, st\<lparr>script := r\<rparr>)"
  by (simp add: serve_def)

lemma get_index_name_fails:
  "script st = Fails e # r \<Longrightarrow> get_index_name clk st = (Inl e, st\<lparr>script := r\<rparr>)"
  by (simp add: get_index_name_def create_index_with_mapping_def es_indices_exists_def serve_fails)

lemma get_index_name_ready:
  "index_exists st (index_name_of clk) \<Longrightarrow> script st = Quiet # r \<Longrightarrow>
     get_index_name clk st = (Inr (index_name_of clk), st\<lparr>script := r\<rparr>)"
  by (simp add: get_index_name_def create_index_with_mapping_def es_indices_exists_def
      serve_quiet_head)

lemma es_search_fails:
  "script st = Fails e # r \<Longrightarrow> es_search n b st = (Inl e, st\<lparr>script := r\<rparr>)"
  by (simp add: es_search_def serve_fails)

lemma es_count_fails:
  "script st = Fails e # r \<Longrightarrow> es_count n q st = (Inl e, st\<lparr>script := r\<rparr>)"
  by (simp add: es_count_def serve_fails)

lemma es_index_fails:
  "script st = Fails e # r \<Longrightarrow> es_index n i d st = (Inl e, st\<lparr>script := r\<rparr>)"
  by (simp add: es_index_def serve_fails)

lemma store_fails_cases:
  assumes "store_fails clk st e"
  obtains r where "script st = Fails e # r"
  | r where "index_exists st (index_name_of clk)" "script st = Quiet # Fails e # r"
  using assms by (auto simp: store_fails_def split: list.splits env.splits)

lemma search_sources_fails:
  assumes "store_fails clk st e"
  shows "fst (search_sources clk body st) = Inl e"
  using assms
proof (cases rule: store_fails_cases)
  case (1 r)
  then show ?thesis by (simp add: search_sources_def get_index_name_fails)
next
  case (2 r)
  have "script (st\<lparr>script := Fails e # r\<rparr>) = Fails e # r" by simp
  from es_search_fails [OF this] get_index_name_ready [OF 2]
  show ?thesis by (simp add: search_sources_def)
qed

lemma load_agents_body_fails:
  assumes "store_fails clk st e"
  shows "fst (load_agents_body clk s t gs st)
           = Inl (ElasticsearchError (''Error loading agents: '' @ exn_str e) (Some 500))"
  using assms
proof (cases rule: store_fails_cases)
  case (1 r)
  then show ?thesis by (simp add: load_agents_body_def get_index_name_fails)
next
  case (2 r)
  have "script (st\<lparr>script := Fails e # r\<rparr>) = Fails e # r" by simp
  from es_search_fails [OF this] get_index_name_ready [OF 2]
  show ?thesis by (simp add: load_agents_body_def)
qed

lemma raw_scan_fails:
  assumes "store_fails clk st e"
  shows "fst (raw_scan msg clk s t sz st) = Inl (ElasticsearchError (msg @ exn_str e) None)"
  using assms
proof (cases rule: store_fails_cases)
  case (1 r)
  then show ?thesis by (simp add: raw_scan_def get_index_name_fails)
next
  case (2 r)
  have "script (st\<lparr>script := Fails e # r\<rparr>) = Fails e # r" by simp
  from es_search_fails [OF this] get_index_name_ready [OF 2]
  show ?thesis by (simp add: raw_scan_def)
qed

lemma load_messages_fails:
  assumes "store_fails clk st e"
  shows "fst (load_messages clk s t gs limit st)
           = Inl (ElasticsearchError (''Error loading high-level messages: '' @ exn_str e) None)"
  using assms
proof (cases rule: store_fails_cases)
  case (1 r)
  then show ?thesis by (simp add: load_messages_def get_index_name_fails)
next
  case (2 r)
  have "script (st\<lparr>script := Fails e # r\<rparr>) = Fails e # r" by simp
  from es_search_fails [OF this] get_index_name_ready [OF 2]
  show ?thesis by (simp add: load_messages_def)
qed

lemma count_fails:
  assumes "store_fails clk st e"
  shows "fst (get_high_level_event_count clk s t st)
           = Inl (ElasticsearchError (''Error getting high-level event count: '' @ exn_str e) None)"
  using assms
proof (cases rule: store_fails_cases)
  case (1 r)
  then show ?thesis by (simp add: get_high_level_event_count_def get_index_name_fails)
next
  case (2 r)
  have "script (st\<lparr>script := Fails e # r\<rparr>) = Fails e # r" by simp
  from es_count_fails [OF this] get_index_name_ready [OF 2]
  show ?thesis by (simp add: get_high_level_event_count_def)
qed

lemma agent_save_fails:
  assumes "store_fails clk st e"
  shows "fst (AgentModel_save_to_elasticsearch clk am st) = Inl e"
  using assms
proof (cases rule: store_fails_cases)
  case (1 r)
  then show ?thesis by (simp add: AgentModel_save_to_elasticsearch_def get_index_name_fails)
next
  case (2 r)
  have "script (st\<lparr>script := Fails e # r\<rparr>) = Fails e # r" by simp
  from es_index_fails [OF this] get_index_name_ready [OF 2]
  show ?thesis by (simp add: AgentModel_save_to_elasticsearch_def)
qed

lemma event_save_fails:
  assumes "store_fails clk st e"
  shows "fst (EventModel_save_to_elasticsearch clk em st) = Inl e"
  using assms
proof (cases rule: store_fails_cases)
  case (1 r)
  then show ?thesis by (simp add: EventModel_save_to_elasticsearch_def get_index_name_fails)
next
  case (2 r)
  have "script (st\<lparr>script := Fails e # r\<rparr>) = Fails e # r" by simp
  from es_index_fails [OF this] get_index_name_ready [OF 2]
  show ?thesis by (simp add: EventModel_save_to_elasticsearch_def)
qed

lemma handle_not_found:
  "fst (func st) = Inl (NotFoundError m) \<Longrightarrow>
     fst (handle_es_exceptions func st) = Inl (UserNotFoundError m 404)"
  by (cases "func st") (simp add: handle_es_exceptions_def)

lemma handle_other:
  "fst (func st) = Inl e \<Longrightarrow> \<forall>m. e \<noteq> NotFoundError m \<Longrightarrow>
     fst (handle_es_exceptions func st)
       = Inl (ElasticsearchError (''Elasticsearch error: '' @ exn_str e) (Some 500))"
  by (cases "func st"; cases e) (simp_all add: handle_es_exceptions_def)

lemma loader_not_found:
  assumes "store_fails clk st (NotFoundError m)"
  shows "fst (handle_es_exceptions (search_sources clk body) st) = Inl (UserNotFoundError m 404)"
  by (rule handle_not_found [of "search_sources clk body" st m, OF search_sources_fails [OF assms]])

lemma loader_other:
  assumes "store_fails clk st e" and "\<forall>m. e \<noteq> NotFoundError m"
  shows "fst (handle_es_exceptions (search_sources clk body) st)
           = Inl (ElasticsearchError (''Elasticsearch error: '' @ exn_str e) (Some 500))"
  by (rule handle_other [of "search_sources clk body" st e, OF search_sources_fails [OF assms(1)] assms(2)])

lemma load_agents_other:
  assumes f: "store_fails clk st e"
  shows "\<exists>msg. fst (load_agents clk s t gs st) = Inl (ElasticsearchError msg (Some 500))"
proof -
  have "\<forall>m. ElasticsearchError (''Error loading agents: '' @ exn_str e) (Some 500) \<noteq> NotFoundError m"
    by simp
  from handle_other [of "load_agents_body clk s t gs" st, OF load_agents_body_fails [OF f] this]
  show ?thesis unfolding load_agents_def by iprover
qed

lemma handle_classes:
  "fst (handle_es_exceptions func st) = Inl x \<Longrightarrow>
     (\<exists>m. x = UserNotFoundError m 404) \<or> (\<exists>m. x = ElasticsearchError m (Some 500))"
  by (cases "func st") (auto simp: handle_es_exceptions_def split: sum.splits exn.splits)

lemma raw_scan_classes:
  "fst (raw_scan msg clk s t sz st) = Inl x \<Longrightarrow> \<exists>m. x = ElasticsearchError m None"
  by (auto simp: raw_scan_def split: prod.splits sum.splits)

lemma load_messages_classes:
  "fst (load_messages clk s t gs limit st) = Inl x \<Longrightarrow> \<exists>m. x = ElasticsearchError m None"
  by (auto simp: load_messages_def split: prod.splits sum.splits)

lemma count_classes:
  "fst (get_high_level_event_count clk s t st) = Inl x \<Longrightarrow> \<exists>m. x = ElasticsearchError m None"
  by (auto simp: get_high_level_event_count_def split: prod.splits sum.splits)

text \<open>
  Claim C5, as the sources have it. The fault translator wraps the three event loaders (by
  group, by agent, all events): every fault they raise is a \<open>UserNotFoundError\<close> with code
  404 or an \<open>ElasticsearchError\<close> with code 500; when the store raises a not-found
  exception (at the first call of the operation, or at its second call after a partition
  check that found the partition) they raise \<open>UserNotFoundError\<close> with its message and 404,
  and when it raises any other exception they raise \<open>ElasticsearchError\<close> with 500. The
  agent query raises \<open>ElasticsearchError\<close> with 500 when the store raises an exception
  other than not-found. The reads that the translator does not wrap (the two raw scans, the
  high-severity count, the message feed) raise nothing but an \<open>ElasticsearchError\<close> without
  a code, and turn every exception of the store into one, a not-found exception included.
  The two saves let the exception of the store through as it is.
\<close>

theorem fault_mapping:
  "(\<forall>x. fst (load_group_events_from_elasticsearch clk ns s t st) = Inl x \<longrightarrow>
        (\<exists>m. x = UserNotFoundError m 404) \<or> (\<exists>m. x = ElasticsearchError m (Some 500)))
   \<and> (\<forall>x. fst (load_from_elasticsearch_with_time_range clk aid s t st) = Inl x \<longrightarrow>
        (\<exists>m. x = UserNotFoundError m 404) \<or> (\<exists>m. x = ElasticsearchError m (Some 500)))
   \<and> (\<forall>x. fst (load_all_events_from_elasticsearch clk s t st) = Inl x \<longrightarrow>
        (\<exists>m. x = UserNotFoundError m 404) \<or> (\<exists>m. x = ElasticsearchError m (Some 500)))
   \<and> (store_fails clk st (NotFoundError m) \<longrightarrow>
        fst (load_group_events_from_elasticsearch clk ns s t st) = Inl (UserNotFoundError m 404)
      \<and> fst (load_from_elasticsearch_with_time_range clk aid s t st) = Inl (UserNotFoundError m 404)
      \<and> fst (load_all_events_from_elasticsearch clk s t st) = Inl (UserNotFoundError m 404))
   \<and> (store_fails clk st e \<and> (\<forall>m. e \<noteq> NotFoundError m) \<longrightarrow>
        fst (load_group_events_from_elasticsearch clk ns s t st)
          = Inl (ElasticsearchError (''Elasticsearch error: '' @ exn_str e) (Some 500))
      \<and> fst (load_from_elasticsearch_with_time_range clk aid s t st)
          = Inl (ElasticsearchError (''Elasticsearch error: '' @ exn_str e) (Some 500))
      \<and> fst (load_all_events_from_elasticsearch clk s t st)
          = Inl (ElasticsearchError (''Elasticsearch error: '' @ exn_str e) (Some 500))
      \<and> (\<exists>msg. fst (load_agents clk s t gs st) = Inl (ElasticsearchError msg (Some 500))))
   \<and> (\<forall>x. fst (get_events_in_timerange clk s t sz st) = Inl x \<longrightarrow>
        (\<exists>m. x = ElasticsearchError m None))
   \<and> (\<forall>x. fst (get_events_for_pie_chart clk s t sz st) = Inl x \<longrightarrow>
        (\<exists>m. x = ElasticsearchError m None))
   \<and> (\<forall>x. fst (get_high_level_event_count clk s t st) = Inl x \<longrightarrow>
        (\<exists>m. x = ElasticsearchError m None))
   \<and> (\<forall>x. fst (load_messages clk s t gs limit st) = Inl x \<longrightarrow>
        (\<exists>m. x = ElasticsearchError m None))
   \<and> (store_fails clk st e \<longrightarrow>
        fst (get_events_in_timerange clk s t sz st)
          = Inl (ElasticsearchError (''Error getting events: '' @ exn_str e) None)
      \<and> fst (get_events_for_pie_chart clk s t sz st)
          = Inl (ElasticsearchError (''Error getting events for pie chart: '' @ exn_str e) None)
      \<and> fst (get_high_level_event_count clk s t st)
          = Inl (ElasticsearchError (''Error getting high-level event count: '' @ exn_str e) None)
      \<and> fst (load_messages clk s t gs limit st)
          = Inl (ElasticsearchError (''Error loading high-level messages: '' @ exn_str e) None)
      \<and> fst (AgentModel_save_to_elasticsearch clk am st) = Inl e
      \<and> fst (EventModel_save_to_elasticsearch clk em st) = Inl e)"
proof -
  have c1: "(\<exists>m. x = UserNotFoundError m 404) \<or> (\<exists>m. x = ElasticsearchError m (Some 500))"
    if "fst (load_group_events_from_elasticsearch clk ns s t st) = Inl x" for x
    using that unfolding load_group_events_from_elasticsearch_def by (rule handle_classes)
  have c2: "(\<exists>m. x = UserNotFoundError m 404) \<or> (\<exists>m. x = ElasticsearchError m (Some 500))"
    if "fst (load_from_elasticsearch_with_time_range clk aid s t st) = Inl x" for x
    using that unfolding load_from_elasticsearch_with_time_range_def by (rule handle_classes)
  have c3: "(\<exists>m. x = UserNotFoundError m 404) \<or> (\<exists>m. x = ElasticsearchError m (Some 500))"
    if "fst (load_all_events_from_elasticsearch clk s t st) = Inl x" for x
    using that unfolding load_all_events_from_elasticsearch_def by (rule handle_classes)
  have n: "fst (load_group_events_from_elasticsearch clk ns s t st) = Inl (UserNotFoundError m 404)
      \<and> fst (load_from_elasticsearch_with_time_range clk aid s t st) = Inl (UserNotFoundError m 404)
      \<and> fst (load_all_events_from_elasticsearch clk s t st) = Inl (UserNotFoundError m 404)"
    if "store_fails clk st (NotFoundError m)"
    unfolding load_group_events_from_elasticsearch_def
      load_from_elasticsearch_with_time_range_def load_all_events_from_elasticsearch_def
    using loader_not_found [OF that] by iprover
  have o: "fst (load_group_events_from_elasticsearch clk ns s t st)
          = Inl (ElasticsearchError (''Elasticsearch error: '' @ exn_str e) (Some 500))
      \<and> fst (load_from_elasticsearch_with_time_range clk aid s t st)
          = Inl (ElasticsearchError (''Elasticsearch error: '' @ exn_str e) (Some 500))
      \<and> fst (load_all_events_from_elasticsearch clk s t st)
          = Inl (ElasticsearchError (''Elasticsearch error: '' @ exn_str e) (Some 500))
      \<and> (\<exists>msg. fst (load_agents clk s t gs st) = Inl (ElasticsearchError msg (Some 500)))"
    if f: "store_fails clk st e" and ne: "\<forall>m. e \<noteq> NotFoundError m"
    unfolding load_group_events_from_elasticsearch_def
      load_from_elasticsearch_with_time_range_def load_all_events_from_elasticsearch_def
    using loader_other [OF f ne] load_agents_other [OF f] by iprover
  have d1: "\<exists>m. x = ElasticsearchError m None"
    if "fst (get_events_in_timerange clk s t sz st) = Inl x" for x
    using that unfolding get_events_in_timerange_def by (rule raw_scan_classes)
  have d2: "\<exists>m. x = ElasticsearchError m None"
    if "fst (get_events_for_pie_chart clk s t sz st) = Inl x" for x
    using that unfolding get_events_for_pie_chart_def by (rule raw_scan_classes)
  have d3: "\<exists>m. x = ElasticsearchError m None"
    if "fst (get_high_level_event_count clk s t st) = Inl x" for x
    using that by (rule count_classes)
  have d4: "\<exists>m. x = ElasticsearchError m None"
    if "fst (load_messages clk s t gs limit st) = Inl x" for x
    using that by (rule load_messages_classes)
  have u: "fst (get_events_in_timerange clk s t sz st)
          = Inl (ElasticsearchError (''Error getting events: '' @ exn_str e) None)
      \<and> fst (get_events_for_pie_chart clk s t sz st)
          = Inl (ElasticsearchError (''Error getting events for pie chart: '' @ exn_str e) None)
      \<and> fst (get_high_level_event_count clk s t st)
          = Inl (ElasticsearchError (''Error getting high-level event count: '' @ exn_str e) None)
      \<and> fst (load_messages clk s t gs limit st)
          = Inl (ElasticsearchError (''Error loading high-level messages: '' @ exn_str e) None)
      \<and> fst (AgentModel_save_to_elasticsearch clk am st) = Inl e
      \<and> fst (EventModel_save_to_elasticsearch clk em st) = Inl e"
    if f: "store_fails clk st e"
    unfolding get_events_in_timerange_def get_events_for_pie_chart_def
    using raw_scan_fails [OF f] count_fails [OF f] load_messages_fails [OF f]
      agent_save_fails [OF f] event_save_fails [OF f] by iprover
  show ?thesis
  proof (intro conjI allI impI)
    fix x assume "fst (load_group_events_from_elasticsearch clk ns s t st) = Inl x"
    then show "(\<exists>m. x = UserNotFoundError m 404) \<or> (\<exists>m. x = ElasticsearchError m (Some 500))"
      by (rule c1)
  next
    fix x assume "fst (load_from_elasticsearch_with_time_range clk aid s t st) = Inl x"
    then show "(\<exists>m. x = UserNotFoundError m 404) \<or> (\<exists>m. x = ElasticsearchError m (Some 500))"
      by (rule c2)
  next
    fix x assume "fst (load_all_events_from_elasticsearch clk s t st) = Inl x"
    then show "(\<exists>m. x = UserNotFoundError m 404) \<or> (\<exists>m. x = ElasticsearchError m (Some 500))"
      by (rule c3)
  next
    fix x assume "fst (get_events_in_timerange clk s t sz st) = Inl x"
    then show "\<exists>m. x = ElasticsearchError m None" by (rule d1)
  next
    fix x assume "fst (get_events_for_pie_chart clk s t sz st) = Inl x"
    then show "\<exists>m. x = ElasticsearchError m None" by (rule d2)
  next
    fix x assume "fst (get_high_level_event_count clk s t st) = Inl x"
    then show "\<exists>m. x = ElasticsearchError m None" by (rule d3)
  next
    fix x assume "fst (load_messages clk s t gs limit st) = Inl x"
    then show "\<exists>m. x = ElasticsearchError m None" by (rule d4)
  qed (use n o u in iprover)+
qed

text \<open>
  The message feed meets a store that answers not-found: the fault it raises is an
  \<open>ElasticsearchError\<close>, not the not-found fault.
\<close>

theorem message_feed_not_found_is_store_fault:
  "fst (load_messages example_clock 0 10 None 20 notfound_store)
     = Inl (ElasticsearchError ''Error loading high-level messages: index_not_found_exception'' None)"
  by (simp add: load_messages_def get_index_name_def create_index_with_mapping_def
      es_indices_exists_def serve_def notfound_store_def)

theorem fault_mapping_witness:
  "store_fails example_clock notfound_store (NotFoundError ''index_not_found_exception'')
   \<and> store_fails example_clock timeout_store (TransportError ''connection timed out'')
   \<and> fst (load_group_events_from_elasticsearch example_clock [''g''] 0 10 notfound_store)
       = Inl (UserNotFoundError ''index_not_found_exception'' 404)
   \<and> fst (load_from_elasticsearch_with_time_range example_clock ''001'' 0 10 notfound_store)
       = Inl (UserNotFoundError ''index_not_found_exception'' 404)
   \<and> fst (load_all_events_from_elasticsearch example_clock 0 10 notfound_store)
       = Inl (UserNotFoundError ''index_not_found_exception'' 404)
   \<and> fst (load_all_events_from_elasticsearch example_clock 0 10 timeout_store)
       = Inl (ElasticsearchError ''Elasticsearch error: connection timed out'' (Some 500))
   \<and> (\<exists>msg. fst (load_agents example_clock 0 10 None timeout_store)
       = Inl (ElasticsearchError msg (Some 500)))
   \<and> fst (get_events_in_timerange example_clock 0 10 100 notfound_store)
       = Inl (ElasticsearchError ''Error getting events: index_not_found_exception'' None)
   \<and> fst (get_high_level_event_count example_clock 0 10 timeout_store)
       = Inl (ElasticsearchError ''Error getting high-level event count: connection timed out'' None)
   \<and> fst (AgentModel_save_to_elasticsearch example_clock (AgentModel_init example_clock example_agent)
        notfound_store) = Inl (NotFoundError ''index_not_found_exception'')"
proof -
  let ?nf = "NotFoundError ''index_not_found_exception''"
  let ?to = "TransportError ''connection timed out''"
  let ?am = "AgentModel_init example_clock example_agent"
  have a: "store_fails example_clock notfound_store ?nf"
    by (simp add: store_fails_def notfound_store_def)
  have b: "store_fails example_clock timeout_store ?to"
    by (simp add: store_fails_def timeout_store_def store_of_def example_index_name index_exists_def)
  have nb: "\<forall>m. ?to \<noteq> NotFoundError m" by simp
  note t1 = fault_mapping [of example_clock "[''g'']" 0 10 notfound_store "''001''"
      "''index_not_found_exception''" ?nf None 100 20 ?am em]
  note t2 = fault_mapping [of example_clock "[''g'']" 0 10 timeout_store "''001''"
      "''index_not_found_exception''" ?to None 100 20 ?am em]
  note N = t1 [THEN conjunct2, THEN conjunct2, THEN conjunct2, THEN conjunct1, THEN mp, OF a]
  note O = t2 [THEN conjunct2, THEN conjunct2, THEN conjunct2, THEN conjunct2, THEN conjunct1,
      THEN mp, OF conjI [OF b nb]]
  note U1 = t1 [THEN conjunct2, THEN conjunct2, THEN conjunct2, THEN conjunct2, THEN conjunct2,
      THEN conjunct2, THEN conjunct2, THEN conjunct2, THEN conjunct2, THEN mp, OF a]
  note U2 = t2 [THEN conjunct2, THEN conjunct2, THEN conjunct2, THEN conjunct2, THEN conjunct2,
      THEN conjunct2, THEN conjunct2, THEN conjunct2, THEN conjunct2, THEN mp, OF b]
  from a b N O U1 U2 show ?thesis by simp
qed

section \<open>Optional fields of an event\<close>

















section \<open>Shape of the MITRE tactic\<close>

text \<open>
  Claim C8. The first event of the example request that the schema itself gives
  (\<open>AgentInfoRequest\<close>) carries its tactic as a list, \<open>["Impact"]\<close>. The field is declared
  \<open>Optional[str]\<close> and there is no validator on it, so validation rejects the event: nothing
  is normalized and nothing is persisted. The same event with the tactic as a string is
  accepted, and the string is written as it is.
\<close>

theorem list_tactic_rejected:
  "WazuhEvent_validate schema_example_event
     = Inl (ValidationError ''rule_mitre_tactic: Input should be a valid string'')
   \<and> map_sum id (\<lambda>ev. field (EventModel_to_dict (EventModel_init ev)) ''rule_mitre_tactic'')
        (WazuhEvent_validate string_tactic_event) = Inr (Some (JStr ''Impact''))"
  by (simp add: WazuhEvent_validate_def bind_exn_def required_datetime_def required_str_def
      required_int_def optional_str_def schema_example_event_def string_tactic_event_def field_def
      EventModel_to_dict_def EventModel_init_def opt_json_def)

section \<open>Properties of the top-N ranking\<close>

lemma rank_key_less: "(rank_key p < rank_key q) = ranks_before p q"
  by (auto simp: rank_key_def ranks_before_def less_prod_def')

lemma rank_key_inj: "inj rank_key"
  by (auto simp: inj_def rank_key_def prod_eq_iff)

lemma group_counts_labels:
  "map fst (group_counts key docs) = remdups (List.map_filter key docs)"
  by (simp add: group_counts_def comp_def)

lemma distinct_group_counts: "distinct (group_counts key docs)"
  using distinct_remdups [of "List.map_filter key docs"]
  unfolding group_counts_labels [symmetric] by (simp add: distinct_map)

lemma set_map_filter: "set (List.map_filter f xs) = {y. \<exists>x\<in>set xs. f x = Some y}"
  by (force simp: List.map_filter_def image_iff)

lemma group_counts_member:
  "(p \<in> set (group_counts key docs))
     = ((\<exists>d\<in>set docs. key d = Some (fst p)) \<and> snd p = group_count key docs (fst p))"
  by (cases p) (auto simp: group_counts_def set_map_filter)

lemma group_count_pos: "(0 < group_count key docs l) = (\<exists>d\<in>set docs. key d = Some l)"
  by (auto simp: group_count_def filter_empty_conv)

lemma ranked_all_sorted: "sorted_wrt ranks_before (sort_key rank_key (group_counts key docs))"
proof -
  let ?xs = "sort_key rank_key (group_counts key docs)"
  have "distinct ?xs" using distinct_group_counts [of key docs] by simp
  then have "distinct (map rank_key ?xs)"
    by (simp add: distinct_map inj_on_subset [OF rank_key_inj])
  moreover have "sorted (map rank_key ?xs)" by (rule sorted_sort_key)
  ultimately have "sorted_wrt (<) (map rank_key ?xs)" by (simp add: strict_sorted_iff)
  then show ?thesis by (simp add: sorted_wrt_map rank_key_less)
qed

lemma top_n_sorted: "sorted_wrt ranks_before (top_n n key docs)"
  unfolding top_n_def by (rule sorted_wrt_take [OF ranked_all_sorted])

lemma top_n_subset: "set (top_n n key docs) \<subseteq> set (group_counts key docs)"
  unfolding top_n_def using set_take_subset [of n "sort_key rank_key (group_counts key docs)"]
  by simp

lemma top_n_length: "length (top_n n key docs) = min n (length (group_counts key docs))"
  by (simp add: top_n_def min.commute)

lemma top_n_dropped:
  assumes p: "p \<in> set (top_n n key docs)" and q: "q \<in> set (group_counts key docs)"
    and nq: "q \<notin> set (top_n n key docs)"
  shows "ranks_before p q"
proof -
  let ?xs = "sort_key rank_key (group_counts key docs)"
  have s: "sorted_wrt ranks_before (take n ?xs @ drop n ?xs)"
    using ranked_all_sorted [of key docs] by simp
  have "q \<in> set (take n ?xs @ drop n ?xs)" using q by simp
  then have "q \<in> set (drop n ?xs)" using nq unfolding top_n_def set_append by blast
  moreover have "p \<in> set (take n ?xs)" using p by (simp add: top_n_def)
  ultimately show ?thesis using s unfolding sorted_wrt_append by blast
qed

lemma group_count_filter:
  "group_count key (filter (\<lambda>d. key d \<noteq> None) docs) l = group_count key docs l"
  by (simp add: group_count_def conj_commute cong: conj_cong)

lemma map_filter_filter:
  "List.map_filter key (filter (\<lambda>d. key d \<noteq> None) docs) = List.map_filter key docs"
  by (induction docs) (auto simp: List.map_filter_def)

lemma top_n_ignores_unkeyed:
  "top_n n key (filter (\<lambda>d. key d \<noteq> None) docs) = top_n n key docs"
  unfolding top_n_def group_counts_def map_filter_filter group_count_filter ..

lemma str_key_null:
  "field d k = None \<or> field d k = Some JNull \<Longrightarrow> str_key k d = None"
  by (auto simp: str_key_def indexed_def)

text \<open>
  Claim C9. For any grouping key and any set of raw events, the ranking keeps at most \<open>n\<close>
  groups (five for the pie chart), each as a pair of its label and the number of events
  with that label; the pairs are in order of descending count and, for equal counts,
  ascending label; every group left out ranks after every group kept; a label appears once;
  and an event whose key is null or absent belongs to no group and changes nothing.
\<close>

theorem top_n_ranking:
  "length (top_n n key docs) = min n (length (group_counts key docs))
   \<and> length (top_n n key docs) \<le> n
   \<and> sorted_wrt ranks_before (top_n n key docs)
   \<and> distinct (map fst (top_n n key docs))
   \<and> (\<forall>p\<in>set (top_n n key docs).
         snd p = length (filter (\<lambda>d. key d = Some (fst p)) docs) \<and> 0 < snd p)
   \<and> (\<forall>l. (\<exists>d\<in>set docs. key d = Some l) \<longrightarrow>
         (l, length (filter (\<lambda>d. key d = Some l) docs)) \<in> set (group_counts key docs))
   \<and> (\<forall>p\<in>set (top_n n key docs). \<forall>q\<in>set (group_counts key docs).
         q \<notin> set (top_n n key docs) \<longrightarrow> ranks_before p q)
   \<and> top_n n key (filter (\<lambda>d. key d \<noteq> None) docs) = top_n n key docs
   \<and> (field d k = None \<or> field d k = Some JNull \<longrightarrow> str_key k d = None)"
proof -
  have a: "length (top_n n key docs) \<le> n" by (simp add: top_n_def)
  have b: "distinct (map fst (top_n n key docs))"
  proof -
    have "distinct (map fst (sort_key rank_key (group_counts key docs)))"
    proof -
      have "mset (map fst (sort_key rank_key (group_counts key docs)))
              = mset (map fst (group_counts key docs))" by simp
      moreover have "distinct (map fst (group_counts key docs))"
        unfolding group_counts_labels by simp
      ultimately show ?thesis by (metis mset_eq_imp_distinct_iff)
    qed
    then show ?thesis unfolding top_n_def take_map [symmetric] by (rule distinct_take)
  qed
  have c: "\<forall>p\<in>set (top_n n key docs).
         snd p = length (filter (\<lambda>d. key d = Some (fst p)) docs) \<and> 0 < snd p"
  proof
    fix p assume "p \<in> set (top_n n key docs)"
    then have "p \<in> set (group_counts key docs)" using top_n_subset by blast
    then have "(\<exists>d\<in>set docs. key d = Some (fst p)) \<and> snd p = group_count key docs (fst p)"
      unfolding group_counts_member .
    then show "snd p = length (filter (\<lambda>d. key d = Some (fst p)) docs) \<and> 0 < snd p"
      using group_count_pos [of key docs "fst p"] by (simp add: group_count_def)
  qed
  have d: "\<forall>l. (\<exists>d\<in>set docs. key d = Some l) \<longrightarrow>
         (l, length (filter (\<lambda>d. key d = Some l) docs)) \<in> set (group_counts key docs)"
    by (simp add: group_counts_member group_count_def)
  have e: "\<forall>p\<in>set (top_n n key docs). \<forall>q\<in>set (group_counts key docs).
         q \<notin> set (top_n n key docs) \<longrightarrow> ranks_before p q"
    using top_n_dropped by blast
  have f: "field d k = None \<or> field d k = Some JNull \<longrightarrow> str_key k d = None"
    using str_key_null by blast
  show ?thesis
    by (intro conjI) (fact top_n_length a top_n_sorted b c d e top_n_ignores_unkeyed f)+
qed

lemma ranking_docs_counts:
  "group_counts (str_key ''agent_name'') ranking_docs = [(''C'', 1), (''B'', 3), (''A'', 3)]"
  by (simp add: group_counts_def group_count_def List.map_filter_def str_key_def indexed_def
      field_def ranking_docs_def named_def)

lemma ranking_docs_top2:
  "top_n 2 (str_key ''agent_name'') ranking_docs = [(''A'', 3), (''B'', 3)]"
  unfolding top_n_def ranking_docs_counts
  by (simp add: rank_key_def less_eq_prod_def)

theorem top_n_ranking_witness:
  "top_n 2 (str_key ''agent_name'') ranking_docs = [(''A'', 3), (''B'', 3)]
   \<and> group_counts (str_key ''agent_name'') ranking_docs = [(''C'', 1), (''B'', 3), (''A'', 3)]
   \<and> sorted_wrt ranks_before [(''A'', 3), (''B'', 3)]
   \<and> ranks_before (''B'', 3) (''C'', 1)
   \<and> length (filter (\<lambda>d. str_key ''agent_name'' d = Some ''A'') ranking_docs) = 3
   \<and> str_key ''agent_name'' [(''agent_name'', JNull)] = None"
proof -
  let ?key = "str_key ''agent_name''"
  note t = top_n_ranking [of 2 ?key ranking_docs "[(''agent_name'', JNull)]" "''agent_name''"]
  note e = ranking_docs_top2
  note g = ranking_docs_counts
  from t have s: "sorted_wrt ranks_before (top_n 2 ?key ranking_docs)" by iprover
  from t have c: "\<forall>p\<in>set (top_n 2 ?key ranking_docs).
         snd p = length (filter (\<lambda>d. ?key d = Some (fst p)) ranking_docs) \<and> 0 < snd p" by iprover
  from t have dr: "\<forall>p\<in>set (top_n 2 ?key ranking_docs). \<forall>q\<in>set (group_counts ?key ranking_docs).
         q \<notin> set (top_n 2 ?key ranking_docs) \<longrightarrow> ranks_before p q" by iprover
  from t have nl: "field [(''agent_name'', JNull)] ''agent_name'' = None
      \<or> field [(''agent_name'', JNull)] ''agent_name'' = Some JNull \<longrightarrow>
      ?key [(''agent_name'', JNull)] = None" by iprover
  have 1: "sorted_wrt ranks_before [(''A'', 3), (''B'', 3)]" using s unfolding e .
  have 2: "ranks_before (''B'', 3) (''C'', 1)"
    using dr unfolding e g by simp
  have 3: "length (filter (\<lambda>d. ?key d = Some ''A'') ranking_docs) = 3"
    using c unfolding e by simp
  have 4: "?key [(''agent_name'', JNull)] = None" using nl by (simp add: field_def)
  from e g 1 2 3 4 show ?thesis by iprover
qed

end
